theory Spec2Isabelle
  imports Complex_Main "HOL-Library.Word"
begin

section \<open>The file watcher and its index synchronisation\<close>

text \<open>
  A shallow embedding of \<^verbatim>\<open>Handler.py\<close>, \<^verbatim>\<open>embedding_pipeline.py\<close> and the entry point
  \<^verbatim>\<open>open_file\<close> of \<^verbatim>\<open>FileHandler.py\<close>. The SQLite table \<^verbatim>\<open>files\<close> and the Chroma
  collection are maps from paths; every function that mutates one of them takes the
  state and returns the new one. What the program prints or logs is appended to the
  state, and so is every call to the embedding backend and to the collection, so that
  calls can be counted.
\<close>

subsection \<open>Values\<close>

type_synonym path = string
type_synonym bytes = "8 word list"
type_synonym pytext = string
type_synonym vector = "real list"

text \<open>A Python exception, by the name of its class. Every handler of the source is
  \<^verbatim>\<open>except Exception\<close>, so the class never decides a branch.\<close>

datatype exn = PyException string

subsection \<open>The file system, as one event's processing sees it\<close>

text \<open>
  A regular file has its bytes, its modification time, whether \<^verbatim>\<open>open(path, 'rb')\<close>
  succeeds, and optionally the number of the \<^verbatim>\<open>read\<close> call that raises (the file
  becoming unreadable while it is hashed).
\<close>

record regfile =
  content :: bytes
  mtime :: real
  readable :: bool
  read_fault :: "nat option"

datatype node = File regfile | Dir real

type_synonym filesystem = "path \<rightharpoonup> node"

definition os_path_exists :: "filesystem \<Rightarrow> path \<Rightarrow> bool" where
  "os_path_exists fs p = (fs p \<noteq> None)"

definition os_path_getmtime :: "filesystem \<Rightarrow> path \<Rightarrow> exn + real" where
  "os_path_getmtime fs p =
     (case fs p of
        None \<Rightarrow> Inl (PyException ''FileNotFoundError'')
      | Some (Dir t) \<Rightarrow> Inr t
      | Some (File f) \<Rightarrow> Inr (mtime f))"

subsection \<open>Libraries and services outside the repository\<close>

text \<open>The extraction routines of \<^verbatim>\<open>FileProcessor\<close>, named as in its handler table.\<close>

datatype handler =
    ReadTextFile | ReadDocx | ReadPdf | ReadOdt | ReadJson | ReadCsv | ReadTsv
  | ReadXml | ReadHtml | ReadArchive | ReadExcel | ReadPowerpoint | ReadImage

text \<open>What \<^verbatim>\<open>collection.add\<close> does with an id that is already present depends on the
  Chroma release: the entry is left as it is, it is replaced, or the call raises.\<close>

datatype dup_policy = DupIgnore | DupReplace | DupRaise

text \<open>
  The parameters of the model:
  \<^item> \<open>md5\<close>: the digest \<^verbatim>\<open>hashlib.md5\<close> computes of all the bytes fed to it, 128 bits;
  \<^item> \<open>path_suffix\<close>: \<^verbatim>\<open>Path(p).suffix.lower()\<close>; \<open>path_name\<close>: \<^verbatim>\<open>Path(p).name\<close>;
  \<^item> \<open>run_handler\<close>: what an extraction routine of \<^verbatim>\<open>FileProcessor\<close> returns or raises
    on a file (the routines call docx2txt, fitz, chardet, pytesseract and others);
  \<^item> \<open>guess_type\<close>: the first component of \<^verbatim>\<open>mimetypes.guess_type(p)\<close>;
  \<^item> \<open>embed_content\<close>: the vector the embedding service returns for a text, or the
    exception of the call;
  \<^item> \<open>add_fault\<close>, \<open>delete_fault\<close>: the exception \<^verbatim>\<open>collection.add\<close> or
    \<^verbatim>\<open>collection.delete\<close> raises for an id, if the index service fails;
  \<^item> \<open>on_duplicate\<close>: see \<^typ>\<open>dup_policy\<close>.
\<close>

record env =
  md5 :: "bytes \<Rightarrow> 128 word"
  path_suffix :: "path \<Rightarrow> string"
  path_name :: "path \<Rightarrow> string"
  run_handler :: "handler \<Rightarrow> path \<Rightarrow> regfile \<Rightarrow> exn + pytext"
  guess_type :: "path \<Rightarrow> exn + string option"
  embed_content :: "pytext \<Rightarrow> exn + vector"
  add_fault :: "path \<Rightarrow> exn option"
  delete_fault :: "path \<Rightarrow> exn option"
  on_duplicate :: dup_policy

subsection \<open>The state: record store, index, calls and output\<close>

record entry =
  document :: pytext
  source :: path
  embedding_of :: vector

datatype call = EmbedCall pytext | AddCall path | DeleteCall path

datatype msg =
    FileDeleted path
  | FileMoved path path
  | SkippedMissing path
  | ErrorAccessing path exn
  | CouldNotHash path
  | NewFile path
  | ModifiedContent path
  | Unchanged path
  | ErrorHashing path exn
  | EmbedFailed pytext
  | ErrorCaught exn
  | EmbeddedStored path
  | RemovedFromChroma path
  | DeleteFailed exn
  | FileNotFound path
  | NotAFile path
  | FileTooLarge path nat nat
  | EmptyFile path
  | ProcessingAs path string
  | UnknownFileType path
  | FailedToRead path exn

record state =
  files :: "path \<rightharpoonup> (real \<times> string)"
  collection :: "path \<rightharpoonup> entry"
  trace :: "call list"
  out :: "msg list"

definition say :: "msg \<Rightarrow> state \<Rightarrow> state" where
  "say m s = s\<lparr>out := out s @ [m]\<rparr>"

definition says :: "msg list \<Rightarrow> state \<Rightarrow> state" where
  "says ms s = s\<lparr>out := out s @ ms\<rparr>"

definition called :: "call \<Rightarrow> state \<Rightarrow> state" where
  "called c s = s\<lparr>trace := trace s @ [c]\<rparr>"

subsection \<open>\<^verbatim>\<open>Handler.py\<close>: the record store\<close>

definition get_file_record :: "state \<Rightarrow> path \<Rightarrow> (real \<times> string) option" where
  "get_file_record s p = files s p"

definition upsert_file_record :: "path \<Rightarrow> real \<Rightarrow> string \<Rightarrow> state \<Rightarrow> state" where
  "upsert_file_record p modified h s = s\<lparr>files := (files s)(p \<mapsto> (modified, h))\<rparr>"

definition delete_file_record :: "path \<Rightarrow> state \<Rightarrow> state" where
  "delete_file_record p s = s\<lparr>files := (files s)(p := None)\<rparr>"

subsection \<open>\<^verbatim>\<open>Handler.py\<close>: the content hash\<close>

definition hex_digit :: "nat \<Rightarrow> char" where
  "hex_digit n = ''0123456789abcdef'' ! (n mod 16)"

definition hexdigest :: "128 word \<Rightarrow> string" where
  "hexdigest w = map (\<lambda>i. hex_digit (unat (drop_bit (4 * (31 - i)) w))) [0..<32]"

text \<open>
  The loop \<^verbatim>\<open>while chunk := f.read(8192): hasher.update(chunk)\<close>. \<open>k\<close> counts the
  \<^verbatim>\<open>read\<close> calls made, \<open>rest\<close> is what is left of the file and \<open>fed\<close> what the hasher has
  been given: \<^verbatim>\<open>update\<close> called on chunks is \<^verbatim>\<open>update\<close> called once on their
  concatenation.
\<close>

function read_chunks :: "nat option \<Rightarrow> nat \<Rightarrow> bytes \<Rightarrow> bytes \<Rightarrow> exn + bytes" where
  "read_chunks fault k rest fed =
     (if fault = Some k then Inl (PyException ''OSError'')
      else if take 8192 rest = [] then Inr fed
      else read_chunks fault (Suc k) (drop 8192 rest) (fed @ take 8192 rest))"
  by pat_completeness auto
termination
  by (relation "measure (\<lambda>(fault, k, rest, fed). length rest)") auto

declare read_chunks.simps [simp del]

definition hash_body :: "env \<Rightarrow> filesystem \<Rightarrow> path \<Rightarrow> exn + string" where
  "hash_body e fs p =
     (case fs p of
        None \<Rightarrow> Inl (PyException ''FileNotFoundError'')
      | Some (Dir t) \<Rightarrow> Inl (PyException ''IsADirectoryError'')
      | Some (File f) \<Rightarrow>
          if \<not> readable f then Inl (PyException ''PermissionError'')
          else (case read_chunks (read_fault f) 0 (content f) [] of
                  Inl x \<Rightarrow> Inl x
                | Inr fed \<Rightarrow> Inr (hexdigest (md5 e fed))))"

definition compute_file_hash :: "env \<Rightarrow> filesystem \<Rightarrow> path \<Rightarrow> string option \<times> msg list" where
  "compute_file_hash e fs p =
     (case hash_body e fs p of
        Inr h \<Rightarrow> (Some h, [])
      | Inl x \<Rightarrow> (None, [ErrorHashing p x]))"

subsection \<open>\<^verbatim>\<open>FileHandler.py\<close>: text extraction\<close>

definition handlers :: "(string \<times> handler) list" where
  "handlers =
     [(''.txt'', ReadTextFile), (''.md'', ReadTextFile), (''.rst'', ReadTextFile),
      (''.log'', ReadTextFile), (''.rtf'', ReadTextFile),
      (''.docx'', ReadDocx), (''.pdf'', ReadPdf), (''.odt'', ReadOdt),
      (''.json'', ReadJson), (''.csv'', ReadCsv), (''.tsv'', ReadTsv),
      (''.xml'', ReadXml), (''.html'', ReadHtml), (''.htm'', ReadHtml),
      (''.py'', ReadTextFile), (''.js'', ReadTextFile), (''.java'', ReadTextFile),
      (''.cpp'', ReadTextFile), (''.c'', ReadTextFile), (''.h'', ReadTextFile),
      (''.css'', ReadTextFile), (''.sql'', ReadTextFile), (''.sh'', ReadTextFile),
      (''.yml'', ReadTextFile), (''.yaml'', ReadTextFile),
      (''.zip'', ReadArchive), (''.tar'', ReadArchive), (''.gz'', ReadArchive),
      (''.xlsx'', ReadExcel), (''.xls'', ReadExcel), (''.pptx'', ReadPowerpoint),
      (''.jpg'', ReadImage), (''.jpeg'', ReadImage), (''.png'', ReadImage),
      (''.bmp'', ReadImage), (''.tiff'', ReadImage), (''.gif'', ReadImage)]"

text \<open>
  The names bound in the module namespace of \<^verbatim>\<open>FileHandler.py\<close>: what it imports (json,
  csv, zipfile, tarfile, logging, \<^verbatim>\<open>Path\<close>, \<^verbatim>\<open>Optional\<close>, \<^verbatim>\<open>Dict\<close>, \<^verbatim>\<open>Callable\<close>, chardet)
  and what it defines. Evaluating any other global name raises \<^verbatim>\<open>NameError\<close>; the file
  uses \<^verbatim>\<open>os\<close>, \<^verbatim>\<open>mimetypes\<close>, \<^verbatim>\<open>docx2txt\<close>, \<^verbatim>\<open>fitz\<close>, \<^verbatim>\<open>pytesseract\<close> and \<^verbatim>\<open>Image\<close>.
\<close>

definition module_names :: "string list" where
  "module_names =
     [''json'', ''csv'', ''zipfile'', ''tarfile'', ''logging'', ''Path'', ''Optional'', ''Dict'',
      ''Callable'', ''chardet'', ''logger'', ''FileProcessor'', ''open_file'']"

definition global_name :: "string \<Rightarrow> exn + unit" where
  "global_name n = (if n \<in> set module_names then Inr () else Inl (PyException ''NameError''))"

text \<open>\<^verbatim>\<open>os.path.basename(file_path)\<close> and \<^verbatim>\<open>mimetypes.guess_type(file_path)\<close> as the file
  evaluates them; \<open>basename\<close> and \<open>table\<close> are what the libraries compute once their name
  resolves.\<close>

definition os_path_basename :: "(path \<Rightarrow> string) \<Rightarrow> path \<Rightarrow> exn + string" where
  "os_path_basename basename p =
     (case global_name ''os'' of Inl x \<Rightarrow> Inl x | Inr u \<Rightarrow> Inr (basename p))"

definition mimetypes_guess_type :: "(path \<Rightarrow> string option) \<Rightarrow> path \<Rightarrow> exn + string option" where
  "mimetypes_guess_type table p =
     (case global_name ''mimetypes'' of Inl x \<Rightarrow> Inl x | Inr u \<Rightarrow> Inr (table p))"

text \<open>The placeholder \<^verbatim>\<open>f"[TAG] {os.path.basename(file_path)}..."\<close> of the routines.\<close>

definition placeholder :: "string \<Rightarrow> (path \<Rightarrow> string) \<Rightarrow> path \<Rightarrow> string \<Rightarrow> exn + pytext" where
  "placeholder tag basename p rest =
     (case os_path_basename basename p of
        Inl x \<Rightarrow> Inl x
      | Inr b \<Rightarrow> Inr (tag @ '' '' @ b @ rest))"

text \<open>
  The routines of \<^verbatim>\<open>FileProcessor\<close> that do not read the file as text. \<open>parse\<close>, \<open>ocr\<close>
  and \<open>listing\<close> stand for the library call of the routine (docx2txt, fitz, zipfile and
  ElementTree, openpyxl, python-pptx, pytesseract, zipfile and tarfile): the text or names
  it returns, or the exception it raises on the file.
\<close>

definition read_docx :: "(path \<Rightarrow> regfile \<Rightarrow> exn + pytext) \<Rightarrow> path \<Rightarrow> regfile \<Rightarrow> exn + pytext" where
  "read_docx parse p f =
     (case global_name ''docx2txt'' of Inl x \<Rightarrow> Inl x | Inr u \<Rightarrow> parse p f)"

definition read_pdf :: "(path \<Rightarrow> regfile \<Rightarrow> exn + pytext) \<Rightarrow> path \<Rightarrow> regfile \<Rightarrow> exn + pytext" where
  "read_pdf parse p f =
     (case global_name ''fitz'' of Inl x \<Rightarrow> Inl x | Inr u \<Rightarrow> parse p f)"

definition read_odt ::
  "(path \<Rightarrow> regfile \<Rightarrow> exn + pytext) \<Rightarrow> (path \<Rightarrow> string) \<Rightarrow> path \<Rightarrow> regfile \<Rightarrow> exn + pytext" where
  "read_odt parse basename p f =
     (case parse p f of
        Inr t \<Rightarrow> Inr t
      | Inl x \<Rightarrow> placeholder ''[ODT FILE]'' basename p [])"

definition read_excel ::
  "bool \<Rightarrow> (path \<Rightarrow> regfile \<Rightarrow> exn + pytext) \<Rightarrow> (path \<Rightarrow> string) \<Rightarrow> path \<Rightarrow> regfile \<Rightarrow> exn + pytext" where
  "read_excel has_openpyxl parse basename p f =
     (if \<not> has_openpyxl then placeholder ''[EXCEL FILE]'' basename p '' (openpyxl not available)''
      else (case parse p f of
              Inr t \<Rightarrow> Inr t
            | Inl x \<Rightarrow> placeholder ''[EXCEL FILE]'' basename p []))"

definition read_powerpoint ::
  "bool \<Rightarrow> (path \<Rightarrow> regfile \<Rightarrow> exn + pytext) \<Rightarrow> (path \<Rightarrow> string) \<Rightarrow> path \<Rightarrow> regfile \<Rightarrow> exn + pytext" where
  "read_powerpoint has_pptx parse basename p f =
     (if \<not> has_pptx then placeholder ''[POWERPOINT FILE]'' basename p '' (python-pptx not available)''
      else (case parse p f of
              Inr t \<Rightarrow> Inr t
            | Inl x \<Rightarrow> placeholder ''[POWERPOINT FILE]'' basename p []))"

definition endswith :: "string \<Rightarrow> string \<Rightarrow> bool" where
  "endswith s suf = (length suf \<le> length s \<and> drop (length s - length suf) s = suf)"

fun join_with :: "string \<Rightarrow> string list \<Rightarrow> string" where
  "join_with sep [] = []"
| "join_with sep [x] = x"
| "join_with sep (x # y # ys) = x @ sep @ join_with sep (y # ys)"

definition read_archive ::
  "(path \<Rightarrow> regfile \<Rightarrow> exn + string list) \<Rightarrow> (path \<Rightarrow> string) \<Rightarrow> path \<Rightarrow> regfile \<Rightarrow> exn + pytext" where
  "read_archive listing basename p f =
     (case (if endswith p ''.zip'' \<or> endswith p ''.tar'' \<or> endswith p ''.tar.gz''
                \<or> endswith p ''.tgz''
            then (case listing p f of
                    Inl x \<Rightarrow> Inl x
                  | Inr file_list \<Rightarrow>
                      placeholder ''[ARCHIVE FILE]'' basename p
                        ([CHR 0x0A] @ ''Contents:'' @ [CHR 0x0A]
                           @ join_with [CHR 0x0A] (take 100 file_list)))
            else placeholder ''[ARCHIVE FILE]'' basename p []) of
        Inr t \<Rightarrow> Inr t
      | Inl x \<Rightarrow> placeholder ''[ARCHIVE FILE]'' basename p [])"

definition read_image ::
  "(path \<Rightarrow> regfile \<Rightarrow> exn + pytext) \<Rightarrow> (path \<Rightarrow> string) \<Rightarrow> path \<Rightarrow> regfile \<Rightarrow> exn + pytext" where
  "read_image ocr basename p f =
     (case (case global_name ''pytesseract'' of
              Inl x \<Rightarrow> Inl x
            | Inr u \<Rightarrow> (case global_name ''Image'' of Inl x \<Rightarrow> Inl x | Inr u \<Rightarrow> ocr p f)) of
        Inr t \<Rightarrow> Inr t
      | Inl x \<Rightarrow> placeholder ''[IMAGE FILE]'' basename p [])"

definition max_size :: nat where
  "max_size = 50 * 1024 * 1024"

definition startswith :: "string \<Rightarrow> string \<Rightarrow> bool" where
  "startswith s pre = (take (length pre) s = pre)"

text \<open>The body of the \<^verbatim>\<open>try\<close> of \<^verbatim>\<open>open_file\<close>: what it returns or raises, and what it
  logs on the way.\<close>

definition try_extract :: "env \<Rightarrow> path \<Rightarrow> regfile \<Rightarrow> (exn + pytext) \<times> msg list" where
  "try_extract e file_path f =
     (let file_ext = path_suffix e file_path in
      case map_of handlers file_ext of
        Some h \<Rightarrow> (run_handler e h file_path f, [ProcessingAs file_path file_ext])
      | None \<Rightarrow>
          (case guess_type e file_path of
             Inl x \<Rightarrow> (Inl x, [])
           | Inr mime_type \<Rightarrow>
               (case mime_type of
                  None \<Rightarrow> (run_handler e ReadTextFile file_path f, [UnknownFileType file_path])
                | Some m \<Rightarrow>
                    if m = [] then (run_handler e ReadTextFile file_path f, [UnknownFileType file_path])
                    else if startswith m ''text/'' then (run_handler e ReadTextFile file_path f, [])
                    else if startswith m ''image/'' then (run_handler e ReadImage file_path f, [])
                    else if startswith m ''audio/'' then (Inr (''[AUDIO FILE] '' @ path_name e file_path), [])
                    else if startswith m ''video/'' then (Inr (''[VIDEO FILE] '' @ path_name e file_path), [])
                    else (run_handler e ReadTextFile file_path f, [UnknownFileType file_path]))))"

definition open_file :: "env \<Rightarrow> filesystem \<Rightarrow> path \<Rightarrow> pytext option \<times> msg list" where
  "open_file e fs file_path =
     (case fs file_path of
        None \<Rightarrow> (None, [FileNotFound file_path])
      | Some (Dir t) \<Rightarrow> (None, [NotAFile file_path])
      | Some (File f) \<Rightarrow>
          (let file_size = length (content f) in
           if file_size > max_size then (None, [FileTooLarge file_path file_size max_size])
           else if file_size = 0 then (Some [], [EmptyFile file_path])
           else (case try_extract e file_path f of
                   (Inr t, ms) \<Rightarrow> (Some t, ms)
                 | (Inl x, ms) \<Rightarrow> (None, ms @ [FailedToRead file_path x]))))"

subsection \<open>\<^verbatim>\<open>embedding_pipeline.py\<close>\<close>

definition embedding :: "env \<Rightarrow> pytext \<Rightarrow> state \<Rightarrow> vector option \<times> state" where
  "embedding e t s =
     (case embed_content e t of
        Inr v \<Rightarrow> (Some v, called (EmbedCall t) s)
      | Inl x \<Rightarrow> (None, say (ErrorCaught x) (say (EmbedFailed t) (called (EmbedCall t) s))))"

definition collection_add :: "env \<Rightarrow> path \<Rightarrow> entry \<Rightarrow> state \<Rightarrow> (exn + unit) \<times> state" where
  "collection_add e i d s =
     (let s1 = called (AddCall i) s in
      case add_fault e i of
        Some x \<Rightarrow> (Inl x, s1)
      | None \<Rightarrow>
          if collection s1 i = None then (Inr (), s1\<lparr>collection := (collection s1)(i \<mapsto> d)\<rparr>)
          else (case on_duplicate e of
                  DupIgnore \<Rightarrow> (Inr (), s1)
                | DupReplace \<Rightarrow> (Inr (), s1\<lparr>collection := (collection s1)(i \<mapsto> d)\<rparr>)
                | DupRaise \<Rightarrow> (Inl (PyException ''DuplicateIDError''), s1)))"

definition collection_delete :: "env \<Rightarrow> path \<Rightarrow> state \<Rightarrow> (exn + unit) \<times> state" where
  "collection_delete e i s =
     (let s1 = called (DeleteCall i) s in
      case delete_fault e i of
        Some x \<Rightarrow> (Inl x, s1)
      | None \<Rightarrow> (Inr (), s1\<lparr>collection := (collection s1)(i := None)\<rparr>))"

definition add_to_vector_db :: "env \<Rightarrow> filesystem \<Rightarrow> path \<Rightarrow> state \<Rightarrow> (exn + bool) \<times> state" where
  "add_to_vector_db e fs filepath s =
     (case open_file e fs filepath of
        (None, ms) \<Rightarrow> (Inr False, says ms s)
      | (Some t, ms) \<Rightarrow>
          if t = [] then (Inr False, says ms s)
          else (case embedding e t (says ms s) of
                  (None, s1) \<Rightarrow> (Inr False, s1)
                | (Some v, s1) \<Rightarrow>
                    if v = [] then (Inr False, s1)
                    else (case collection_add e filepath
                                 \<lparr>document = t, source = filepath, embedding_of = v\<rparr> s1 of
                            (Inl x, s2) \<Rightarrow> (Inl x, s2)
                          | (Inr u, s2) \<Rightarrow> (Inr True, say (EmbeddedStored filepath) s2))))"

definition delete_from_vector_db :: "env \<Rightarrow> path \<Rightarrow> state \<Rightarrow> state" where
  "delete_from_vector_db e filepath s =
     (case collection_delete e filepath s of
        (Inr u, s1) \<Rightarrow> say (RemovedFromChroma filepath) s1
      | (Inl x, s1) \<Rightarrow> say (DeleteFailed x) s1)"

subsection \<open>\<^verbatim>\<open>Handler.py\<close>: the event handler\<close>

text \<open>\<^verbatim>\<open>process\<close> ignores what \<^verbatim>\<open>add_to_vector_db\<close> returns; an exception of it
  propagates to the caller.\<close>

definition discard :: "(exn + bool) \<times> state \<Rightarrow> (exn + unit) \<times> state" where
  "discard r = (case r of (Inl x, s) \<Rightarrow> (Inl x, s) | (Inr b, s) \<Rightarrow> (Inr (), s))"

definition process :: "env \<Rightarrow> filesystem \<Rightarrow> path \<Rightarrow> state \<Rightarrow> (exn + unit) \<times> state" where
  "process e fs p s =
     (if \<not> os_path_exists fs p then (Inr (), say (SkippedMissing p) s)
      else (case os_path_getmtime fs p of
              Inl x \<Rightarrow> (Inr (), say (ErrorAccessing p x) s)
            | Inr current_modified \<Rightarrow>
                (case compute_file_hash e fs p of
                   (None, ms) \<Rightarrow> (Inr (), say (CouldNotHash p) (says ms s))
                 | (Some current_hash, ms) \<Rightarrow>
                     (case get_file_record (says ms s) p of
                        None \<Rightarrow>
                          discard (add_to_vector_db e fs p
                            (upsert_file_record p current_modified current_hash
                               (say (NewFile p) (says ms s))))
                      | Some (last_modified, last_hash) \<Rightarrow>
                          if current_hash \<noteq> last_hash then
                            discard (add_to_vector_db e fs p
                              (upsert_file_record p current_modified current_hash
                                 (say (ModifiedContent p) (says ms s))))
                          else (Inr (), say (Unchanged p) (says ms s))))))"

text \<open>A watchdog event: whether it is about a directory, its source path and, for a
  move, its destination path.\<close>

datatype event =
    Created bool path
  | Modified bool path
  | Deleted bool path
  | Moved bool path path

definition on_created :: "env \<Rightarrow> filesystem \<Rightarrow> bool \<Rightarrow> path \<Rightarrow> state \<Rightarrow> (exn + unit) \<times> state" where
  "on_created e fs is_directory src_path s =
     (if \<not> is_directory then process e fs src_path s else (Inr (), s))"

definition on_modified :: "env \<Rightarrow> filesystem \<Rightarrow> bool \<Rightarrow> path \<Rightarrow> state \<Rightarrow> (exn + unit) \<times> state" where
  "on_modified e fs is_directory src_path s =
     (if \<not> is_directory then process e fs src_path s else (Inr (), s))"

definition on_deleted :: "env \<Rightarrow> bool \<Rightarrow> path \<Rightarrow> state \<Rightarrow> (exn + unit) \<times> state" where
  "on_deleted e is_directory src_path s =
     (if \<not> is_directory then
        (Inr (), delete_from_vector_db e src_path
                   (delete_file_record src_path (say (FileDeleted src_path) s)))
      else (Inr (), s))"

definition on_moved :: "env \<Rightarrow> filesystem \<Rightarrow> bool \<Rightarrow> path \<Rightarrow> path \<Rightarrow> state \<Rightarrow> (exn + unit) \<times> state" where
  "on_moved e fs is_directory src_path dest_path s =
     (if \<not> is_directory then
        process e fs dest_path
          (delete_from_vector_db e src_path
             (delete_file_record src_path (say (FileMoved src_path dest_path) s)))
      else (Inr (), s))"

fun dispatch :: "env \<Rightarrow> filesystem \<Rightarrow> event \<Rightarrow> state \<Rightarrow> (exn + unit) \<times> state" where
  "dispatch e fs (Created d p) s = on_created e fs d p s"
| "dispatch e fs (Modified d p) s = on_modified e fs d p s"
| "dispatch e fs (Deleted d p) s = on_deleted e d p s"
| "dispatch e fs (Moved d p q) s = on_moved e fs d p q s"

text \<open>The observer delivers events one at a time; each is processed on the file system
  as it is then. What a handler has written stays written when it raises.\<close>

fun run_events :: "env \<Rightarrow> (filesystem \<times> event) list \<Rightarrow> state \<Rightarrow> state" where
  "run_events e [] s = s"
| "run_events e ((fs, ev) # rest) s = run_events e rest (snd (dispatch e fs ev s))"

text \<open>The number of \<^verbatim>\<open>collection.add\<close> calls and of embedding calls made so far.\<close>

definition add_calls :: "state \<Rightarrow> nat" where
  "add_calls s = length (filter (\<lambda>c. case c of AddCall i \<Rightarrow> True | _ \<Rightarrow> False) (trace s))"

definition embed_calls :: "state \<Rightarrow> nat" where
  "embed_calls s = length (filter (\<lambda>c. case c of EmbedCall t \<Rightarrow> True | _ \<Rightarrow> False) (trace s))"


subsection \<open>Reading the file system\<close>

text \<open>The bytes of a regular file; and when hashing a path fails: the path is missing or
  a directory, the file cannot be opened, or one of the \<^verbatim>\<open>read\<close> calls the loop makes
  (one per chunk of 8192 bytes and a last, empty one) is the call that raises.\<close>

definition file_bytes :: "filesystem \<Rightarrow> path \<Rightarrow> bytes" where
  "file_bytes fs p = (case fs p of Some (File f) \<Rightarrow> content f | _ \<Rightarrow> [])"

definition unreadable :: "filesystem \<Rightarrow> path \<Rightarrow> bool" where
  "unreadable fs p =
     (case fs p of
        None \<Rightarrow> True
      | Some (Dir t) \<Rightarrow> True
      | Some (File f) \<Rightarrow>
          \<not> readable f \<or>
          (case read_fault f of
             None \<Rightarrow> False
           | Some j \<Rightarrow> j \<le> (length (content f) + 8191) div 8192))"

subsection \<open>Sample inputs\<close>

text \<open>
  A stand-in for each parameter, and small file systems, for evaluating the definitions.
  \<open>sample_suffix\<close> and \<open>sample_name\<close> follow pathlib on POSIX paths with ASCII names.
  In \<open>sample_handler\<close> the routines that read the file as text (and those that fall back
  to reading it as text) return its bytes decoded, the library calls of the other routines
  fail (the sample files are no valid documents, images or archives), and every routine
  is run as \<^verbatim>\<open>FileHandler.py\<close> has it.
\<close>

definition toy_digest :: "bytes \<Rightarrow> 128 word" where
  "toy_digest bs = word_of_nat (foldr (\<lambda>b n. unat b + 256 * n) bs 0)"

definition ascii_lower :: "char \<Rightarrow> char" where
  "ascii_lower c =
     (case map_of (zip ''ABCDEFGHIJKLMNOPQRSTUVWXYZ'' ''abcdefghijklmnopqrstuvwxyz'') c of
        Some d \<Rightarrow> d
      | None \<Rightarrow> c)"

definition sample_name :: "path \<Rightarrow> string" where
  "sample_name p =
     rev (takeWhile (\<lambda>c. c \<noteq> CHR ''/'') (dropWhile (\<lambda>c. c = CHR ''/'') (rev p)))"

definition sample_suffix :: "path \<Rightarrow> string" where
  "sample_suffix p =
     (let name = sample_name p;
          ext = rev (takeWhile (\<lambda>c. c \<noteq> CHR ''.'') (rev name))
      in if CHR ''.'' \<in> set name \<and> ext \<noteq> [] \<and> length ext + 1 < length name
         then map ascii_lower (CHR ''.'' # ext) else [])"

definition sample_decode :: "bytes \<Rightarrow> pytext" where
  "sample_decode bs = map (\<lambda>b. char_of (unat b)) bs"

definition sample_parse :: "path \<Rightarrow> regfile \<Rightarrow> exn + pytext" where
  "sample_parse p f = Inl (PyException ''ValueError'')"

definition sample_listing :: "path \<Rightarrow> regfile \<Rightarrow> exn + string list" where
  "sample_listing p f = Inl (PyException ''ValueError'')"

definition sample_handler :: "handler \<Rightarrow> path \<Rightarrow> regfile \<Rightarrow> exn + pytext" where
  "sample_handler h p f =
     (case h of
        ReadDocx \<Rightarrow> read_docx sample_parse p f
      | ReadPdf \<Rightarrow> read_pdf sample_parse p f
      | ReadOdt \<Rightarrow> read_odt sample_parse sample_name p f
      | ReadExcel \<Rightarrow> read_excel True sample_parse sample_name p f
      | ReadPowerpoint \<Rightarrow> read_powerpoint True sample_parse sample_name p f
      | ReadArchive \<Rightarrow> read_archive sample_listing sample_name p f
      | ReadImage \<Rightarrow> read_image sample_parse sample_name p f
      | _ \<Rightarrow> Inr (sample_decode (content f)))"

definition sample_env :: env where
  "sample_env =
     \<lparr>md5 = toy_digest, path_suffix = sample_suffix, path_name = sample_name,
      run_handler = sample_handler, guess_type = mimetypes_guess_type (\<lambda>p. None),
      embed_content = (\<lambda>t. Inr [1]), add_fault = (\<lambda>p. None),
      delete_fault = (\<lambda>p. None), on_duplicate = DupIgnore\<rparr>"

definition offline_env :: env where
  "offline_env = sample_env\<lparr>embed_content := (\<lambda>t. Inl (PyException ''ConnectionError''))\<rparr>"

definition index_down_env :: env where
  "index_down_env =
     sample_env\<lparr>add_fault := (\<lambda>p. Some (PyException ''ConnectionError'')),
                delete_fault := (\<lambda>p. Some (PyException ''ConnectionError''))\<rparr>"

definition sample_file :: "bytes \<Rightarrow> real \<Rightarrow> regfile" where
  "sample_file bs t = \<lparr>content = bs, mtime = t, readable = True, read_fault = None\<rparr>"

definition sample_fs :: filesystem where
  "sample_fs =
     [''notes.txt'' \<mapsto> File (sample_file [97] 1),
      ''empty.txt'' \<mapsto> File (sample_file [] 1),
      ''report.docx'' \<mapsto> File (sample_file [80, 75] 1),
      ''photo.png'' \<mapsto> File (sample_file [137, 80] 1),
      ''data.xyz'' \<mapsto> File (sample_file [1, 2] 1),
      ''locked.txt'' \<mapsto> File ((sample_file [97] 1)\<lparr>readable := False\<rparr>)]"

definition big_bytes :: bytes where
  "big_bytes = replicate 52428801 0"

definition large_fs :: filesystem where
  "large_fs = [''big.bin'' \<mapsto> File (sample_file big_bytes 1)]"

definition copy_fs :: filesystem where
  "copy_fs = [''archive/copy.md'' \<mapsto> File (sample_file [97] 2)]"

definition touched_fs :: filesystem where
  "touched_fs =
     [''notes.txt'' \<mapsto> File (sample_file [97] 2),
      ''empty.txt'' \<mapsto> File (sample_file [] 2)]"

definition truncated_fs :: filesystem where
  "truncated_fs = [''notes.txt'' \<mapsto> File (sample_file [] 3)]"

definition empty_state :: state where
  "empty_state = \<lparr>files = Map.empty, collection = Map.empty, trace = [], out = []\<rparr>"

definition tracked_state :: state where
  "tracked_state = empty_state\<lparr>files := [''notes.txt'' \<mapsto> (0, hexdigest (toy_digest [97]))]\<rparr>"

text \<open>\<^verbatim>\<open>notes.txt\<close> with its record and its index entry, and an index entry for
  \<^verbatim>\<open>orphan.txt\<close>, which has no record.\<close>

definition indexed_state :: state where
  "indexed_state =
     tracked_state\<lparr>collection :=
       [''notes.txt'' \<mapsto> \<lparr>document = ''a'', source = ''notes.txt'', embedding_of = [1]\<rparr>,
        ''orphan.txt'' \<mapsto> \<lparr>document = ''a'', source = ''orphan.txt'', embedding_of = [1]\<rparr>]\<rparr>"

section \<open>Properties\<close>

subsection \<open>Auxiliary facts\<close>

lemma chunk_count_step:
  fixes n j k :: nat
  assumes "0 < n" "j \<noteq> k"
  shows "(Suc k \<le> j \<and> j \<le> Suc k + (n - 8192 + 8191) div 8192) =
         (k \<le> j \<and> j \<le> k + (n + 8191) div 8192)"
proof (cases "n < 8192")
  case True
  then have "(n - 8192 + 8191) div 8192 = 0" "(n + 8191) div 8192 = 1"
    using assms(1) by auto
  then show ?thesis using assms(2) by auto
next
  case False
  then obtain m where m: "n = m + 8192"
    by (metis add.commute le_Suc_ex not_less)
  have "(m + 8192 + 8191) div 8192 = Suc ((m + 8191) div 8192)"
    by simp
  then show ?thesis using assms(2) by (auto simp: m)
qed


lemma read_chunks_result:
  "read_chunks fault k rest fed =
     (case fault of
        None \<Rightarrow> Inr (fed @ rest)
      | Some j \<Rightarrow>
          if k \<le> j \<and> j \<le> k + (length rest + 8191) div 8192
          then Inl (PyException ''OSError'') else Inr (fed @ rest))"
proof (induction fault k rest fed rule: read_chunks.induct)
  case (1 fault k rest fed)
  show ?case
  proof (cases "fault = Some k")
    case True
    then show ?thesis by (subst read_chunks.simps) simp
  next
    case notk: False
    show ?thesis
    proof (cases "take 8192 rest = []")
      case True
      then have "rest = []" by simp
      with notk show ?thesis
        by (subst read_chunks.simps) (auto split: option.splits)
    next
      case False
      then have ne: "rest \<noteq> []" by auto
      have step: "read_chunks fault k rest fed =
          read_chunks fault (Suc k) (drop 8192 rest) (fed @ take 8192 rest)"
        using notk False by (subst read_chunks.simps) simp
      have ar: "\<And>j. j \<noteq> k \<Longrightarrow>
         (Suc k \<le> j \<and> j \<le> Suc k + (length rest - 8192 + 8191) div 8192) =
         (k \<le> j \<and> j \<le> k + (length rest + 8191) div 8192)"
        using ne by (intro chunk_count_step) auto
      show ?thesis
      proof (cases fault)
        case None
        then show ?thesis unfolding step using "1.IH"[OF notk False] by simp
      next
        case (Some j)
        then have "j \<noteq> k" using notk by simp
        from ar[OF this] show ?thesis
          unfolding step using "1.IH"[OF notk False] Some by simp
      qed
    qed
  qed
qed


lemma length_hexdigest: "length (hexdigest w) = 32"
  by (simp add: hexdigest_def)


lemma hash_body_result:
  "hash_body e fs p =
     (if unreadable fs p then Inl (case fs p of None \<Rightarrow> PyException ''FileNotFoundError''
          | Some (Dir t) \<Rightarrow> PyException ''IsADirectoryError''
          | Some (File f) \<Rightarrow> if readable f then PyException ''OSError'' else PyException ''PermissionError'')
      else Inr (hexdigest (md5 e (file_bytes fs p))))"
  by (auto simp: hash_body_def unreadable_def file_bytes_def read_chunks_result
      split: option.splits node.splits)



lemma say_fields [simp]:
  "files (say m s) = files s" "collection (say m s) = collection s"
  "trace (say m s) = trace s" "out (say m s) = out s @ [m]"
  by (simp_all add: say_def)

lemma says_fields [simp]:
  "files (says ms s) = files s" "collection (says ms s) = collection s"
  "trace (says ms s) = trace s" "out (says ms s) = out s @ ms"
  by (simp_all add: says_def)

lemma says_Nil [simp]: "says [] s = s"
  by (simp add: says_def)

lemma called_fields [simp]:
  "files (called c s) = files s" "collection (called c s) = collection s"
  "trace (called c s) = trace s @ [c]" "out (called c s) = out s"
  by (simp_all add: called_def)

lemma upsert_fields [simp]:
  "files (upsert_file_record p t h s) = (files s)(p \<mapsto> (t, h))"
  "collection (upsert_file_record p t h s) = collection s"
  "trace (upsert_file_record p t h s) = trace s"
  "out (upsert_file_record p t h s) = out s"
  by (simp_all add: upsert_file_record_def)

lemma delete_record_fields [simp]:
  "files (delete_file_record p s) = (files s)(p := None)"
  "collection (delete_file_record p s) = collection s"
  "trace (delete_file_record p s) = trace s"
  "out (delete_file_record p s) = out s"
  by (simp_all add: delete_file_record_def)

lemma embedding_fields:
  "files (snd (embedding e t s)) = files s"
  "collection (snd (embedding e t s)) = collection s"
  "trace (snd (embedding e t s)) = trace s @ [EmbedCall t]"
  by (simp_all add: embedding_def split: sum.splits)

lemma collection_add_fields:
  "files (snd (collection_add e i d s)) = files s"
  "trace (snd (collection_add e i d s)) = trace s @ [AddCall i]"
  "q \<noteq> i \<Longrightarrow> collection (snd (collection_add e i d s)) q = collection s q"
  by (simp_all add: collection_add_def Let_def split: option.splits dup_policy.splits)

lemma collection_delete_fields:
  "files (snd (collection_delete e i s)) = files s"
  "trace (snd (collection_delete e i s)) = trace s @ [DeleteCall i]"
  "q \<noteq> i \<Longrightarrow> collection (snd (collection_delete e i s)) q = collection s q"
  "delete_fault e i = None \<Longrightarrow> collection (snd (collection_delete e i s)) i = None"
  by (simp_all add: collection_delete_def Let_def split: option.splits)

lemma delete_from_vector_db_fields:
  "files (delete_from_vector_db e i s) = files s"
  "trace (delete_from_vector_db e i s) = trace s @ [DeleteCall i]"
  "q \<noteq> i \<Longrightarrow> collection (delete_from_vector_db e i s) q = collection s q"
  "delete_fault e i = None \<Longrightarrow> collection (delete_from_vector_db e i s) i = None"
  by (simp_all add: delete_from_vector_db_def collection_delete_def Let_def split: option.splits)

lemma add_to_vector_db_state:
  "\<exists>ms. snd (add_to_vector_db e fs p s) = says ms s
     \<or> (\<exists>t. snd (add_to_vector_db e fs p s) = snd (embedding e t (says ms s)))
     \<or> (\<exists>t d. snd (add_to_vector_db e fs p s)
               = snd (collection_add e p d (snd (embedding e t (says ms s)))))
     \<or> (\<exists>t d. snd (add_to_vector_db e fs p s)
               = say (EmbeddedStored p) (snd (collection_add e p d (snd (embedding e t (says ms s))))))"
proof (cases "open_file e fs p")
  case (Pair r ms)
  show ?thesis
  proof (cases r)
    case None
    with Pair have "snd (add_to_vector_db e fs p s) = says ms s"
      by (simp add: add_to_vector_db_def)
    then show ?thesis by blast
  next
    case (Some t)
    show ?thesis
    proof (cases "t = []")
      case True
      with Pair Some have "snd (add_to_vector_db e fs p s) = says ms s"
        by (simp add: add_to_vector_db_def)
      then show ?thesis by blast
    next
      case ne: False
      obtain ov s1 where emb: "embedding e t (says ms s) = (ov, s1)"
        by (cases "embedding e t (says ms s)")
      then have s1: "s1 = snd (embedding e t (says ms s))" by simp
      show ?thesis
      proof (cases "ov = None \<or> ov = Some []")
        case True
        with Pair Some ne emb have "snd (add_to_vector_db e fs p s) = s1"
          by (auto simp: add_to_vector_db_def)
        with s1 show ?thesis by blast
      next
        case False
        then obtain v where v: "ov = Some v" "v \<noteq> []" by (cases ov) auto
        define d where "d = \<lparr>document = t, source = p, embedding_of = v\<rparr>"
        obtain r2 s2 where add: "collection_add e p d s1 = (r2, s2)"
          by (cases "collection_add e p d s1")
        then have s2: "s2 = snd (collection_add e p d (snd (embedding e t (says ms s))))"
          using s1 by simp
        show ?thesis
        proof (cases r2)
          case (Inl x)
          with Pair Some ne emb v add have "snd (add_to_vector_db e fs p s) = s2"
            by (simp add: add_to_vector_db_def d_def)
          with s2 show ?thesis by blast
        next
          case (Inr u)
          with Pair Some ne emb v add
          have "snd (add_to_vector_db e fs p s) = say (EmbeddedStored p) s2"
            by (simp add: add_to_vector_db_def d_def)
          with s2 show ?thesis by blast
        qed
      qed
    qed
  qed
qed

lemma add_to_vector_db_files:
  "files (snd (add_to_vector_db e fs p s)) = files s"
  using add_to_vector_db_state [of e fs p s]
  by (auto simp: embedding_fields collection_add_fields)

lemma add_to_vector_db_collection_other:
  "q \<noteq> p \<Longrightarrow> collection (snd (add_to_vector_db e fs p s)) q = collection s q"
  using add_to_vector_db_state [of e fs p s]
  by (auto simp: embedding_fields collection_add_fields)

lemma add_to_vector_db_add_calls:
  "add_calls (snd (add_to_vector_db e fs p s)) \<le> Suc (add_calls s)"
  using add_to_vector_db_state [of e fs p s]
  by (auto simp: add_calls_def embedding_fields collection_add_fields)

lemma add_to_vector_db_no_text:
  assumes "fst (open_file e fs p) = None \<or> fst (open_file e fs p) = Some []"
  shows "add_to_vector_db e fs p s = (Inr False, says (snd (open_file e fs p)) s)"
  using assms by (cases "open_file e fs p") (auto simp: add_to_vector_db_def)

lemma add_to_vector_db_indexed:
  assumes "open_file e fs p = (Some t, ms)" "t \<noteq> []" "embed_content e t = Inr v" "v \<noteq> []"
  shows "trace (snd (add_to_vector_db e fs p s)) = trace s @ [EmbedCall t, AddCall p]"
proof -
  have a: "embedding e t (says ms s) = (Some v, called (EmbedCall t) (says ms s))"
    using assms(3) by (simp add: embedding_def)
  define d where "d = \<lparr>document = t, source = p, embedding_of = v\<rparr>"
  obtain r2 s2 where add: "collection_add e p d (called (EmbedCall t) (says ms s)) = (r2, s2)"
    by (cases "collection_add e p d (called (EmbedCall t) (says ms s))")
  have tr: "trace s2 = trace s @ [EmbedCall t, AddCall p]"
    using collection_add_fields(2) [of e p d "called (EmbedCall t) (says ms s)"] add by simp
  show ?thesis
    using assms(1,2,4) a add tr
    by (cases r2) (simp_all add: add_to_vector_db_def d_def)
qed

lemma open_file_empty:
  assumes "fs p = Some (File f)" "content f = []"
  shows "open_file e fs p = (Some [], [EmptyFile p])"
  using assms by (simp add: open_file_def max_size_def)


lemma compute_file_hash_result:
  "compute_file_hash e fs p =
     (if unreadable fs p then (None, snd (compute_file_hash e fs p))
      else (Some (hexdigest (md5 e (file_bytes fs p))), []))"
  by (simp add: compute_file_hash_def hash_body_result)

lemma compute_file_hash_fst:
  "fst (compute_file_hash e fs p) =
     (if unreadable fs p then None else Some (hexdigest (md5 e (file_bytes fs p))))"
  by (simp add: compute_file_hash_def hash_body_result)

lemma exists_if_readable: "\<not> unreadable fs p \<Longrightarrow> os_path_exists fs p"
  by (cases "fs p") (auto simp: unreadable_def os_path_exists_def)

lemma getmtime_if_readable:
  "\<not> unreadable fs p \<Longrightarrow> \<exists>f. fs p = Some (File f) \<and> os_path_getmtime fs p = Inr (mtime f)"
  by (auto simp: unreadable_def os_path_getmtime_def split: option.splits node.splits)

lemma snd_discard [simp]: "snd (discard r) = snd r"
  by (simp add: discard_def split: prod.splits sum.splits)

lemma process_skip:
  assumes "unreadable fs p"
  shows "\<exists>ms. process e fs p s = (Inr (), says ms s)"
proof (cases "fs p")
  case None
  then have "process e fs p s = (Inr (), says [SkippedMissing p] s)"
    by (simp add: process_def os_path_exists_def say_def says_def)
  then show ?thesis by blast
next
  case (Some n)
  obtain ms where h: "compute_file_hash e fs p = (None, ms)"
    using compute_file_hash_result [of e fs p] assms by auto
  obtain t where t: "os_path_getmtime fs p = Inr t"
    using Some by (cases n) (auto simp: os_path_getmtime_def)
  have "process e fs p s = (Inr (), says (ms @ [CouldNotHash p]) s)"
    using Some h t by (simp add: process_def os_path_exists_def say_def says_def)
  then show ?thesis by blast
qed

lemma process_unchanged:
  assumes "\<not> unreadable fs p"
    and "files s p = Some (t, hexdigest (md5 e (file_bytes fs p)))"
  shows "process e fs p s = (Inr (), say (Unchanged p) s)"
proof -
  obtain f where f: "fs p = Some (File f)" "os_path_getmtime fs p = Inr (mtime f)"
    using getmtime_if_readable [OF assms(1)] by blast
  have h: "compute_file_hash e fs p = (Some (hexdigest (md5 e (file_bytes fs p))), [])"
    using compute_file_hash_result [of e fs p] assms(1) by simp
  show ?thesis
    using f h assms(2) exists_if_readable [OF assms(1)]
    by (simp add: process_def get_file_record_def)
qed

lemma process_index:
  assumes "\<not> unreadable fs p" and "fs p = Some (File f)"
    and "map_option snd (files s p) \<noteq> Some (hexdigest (md5 e (file_bytes fs p)))"
  shows "process e fs p s =
     discard (add_to_vector_db e fs p
       (upsert_file_record p (mtime f) (hexdigest (md5 e (file_bytes fs p)))
          (say (if files s p = None then NewFile p else ModifiedContent p) s)))"
proof -
  have g: "os_path_getmtime fs p = Inr (mtime f)"
    using assms(2) by (simp add: os_path_getmtime_def)
  have h: "compute_file_hash e fs p = (Some (hexdigest (md5 e (file_bytes fs p))), [])"
    using compute_file_hash_result [of e fs p] assms(1) by simp
  show ?thesis
    using g h assms(3) exists_if_readable [OF assms(1)]
    by (auto simp: process_def get_file_record_def split: option.splits)
qed

lemma global_name_unbound:
  "global_name ''os'' = Inl (PyException ''NameError'')"
  "global_name ''mimetypes'' = Inl (PyException ''NameError'')"
  "global_name ''docx2txt'' = Inl (PyException ''NameError'')"
  "global_name ''fitz'' = Inl (PyException ''NameError'')"
  "global_name ''pytesseract'' = Inl (PyException ''NameError'')"
  "global_name ''Image'' = Inl (PyException ''NameError'')"
  by (simp_all add: global_name_def module_names_def)

lemma placeholder_raises: "placeholder tag basename p rest = Inl (PyException ''NameError'')"
  by (simp add: placeholder_def os_path_basename_def global_name_unbound)

lemma mimetypes_guess_type_raises:
  "mimetypes_guess_type table p = Inl (PyException ''NameError'')"
  by (simp add: mimetypes_guess_type_def global_name_unbound)

lemma read_image_raises: "read_image ocr basename p f = Inl (PyException ''NameError'')"
  by (simp add: read_image_def global_name_unbound placeholder_raises)

lemma read_docx_raises: "read_docx parse p f = Inl (PyException ''NameError'')"
  by (simp add: read_docx_def global_name_unbound)

lemma read_pdf_raises: "read_pdf parse p f = Inl (PyException ''NameError'')"
  by (simp add: read_pdf_def global_name_unbound)

lemma read_archive_raises: "read_archive listing basename p f = Inl (PyException ''NameError'')"
  by (simp add: read_archive_def placeholder_raises split: sum.splits)

lemma sample_suffixes:
  "sample_suffix ''notes.txt'' = ''.txt''" "sample_suffix ''empty.txt'' = ''.txt''"
  "sample_suffix ''report.docx'' = ''.docx''" "sample_suffix ''photo.png'' = ''.png''"
  "sample_suffix ''data.xyz'' = ''.xyz''" "sample_suffix ''archive/copy.md'' = ''.md''"
  by (simp_all add: sample_suffix_def sample_name_def ascii_lower_def Let_def)

lemma sample_decode_values: "sample_decode [97] = ''a''"
  by code_simp

lemma sample_readable:
  "\<not> unreadable sample_fs ''notes.txt''" "\<not> unreadable sample_fs ''empty.txt''"
  "\<not> unreadable sample_fs ''report.docx''" "unreadable sample_fs ''locked.txt''"
  "unreadable sample_fs ''gone.txt''"
  by (simp_all add: unreadable_def sample_fs_def sample_file_def)

lemma sample_bytes:
  "file_bytes sample_fs ''notes.txt'' = [97]" "file_bytes sample_fs ''empty.txt'' = []"
  "file_bytes sample_fs ''report.docx'' = [80, 75]"
  by (simp_all add: file_bytes_def sample_fs_def sample_file_def)

lemma sample_more:
  "\<not> unreadable sample_fs ''photo.png''" "\<not> unreadable sample_fs ''data.xyz''"
  "sample_fs ''photo.png'' = Some (File (sample_file [137, 80] 1))"
  "sample_fs ''data.xyz'' = Some (File (sample_file [1, 2] 1))"
  "file_bytes sample_fs ''photo.png'' = [137, 80]" "file_bytes sample_fs ''data.xyz'' = [1, 2]"
  by (simp_all add: unreadable_def file_bytes_def sample_fs_def sample_file_def)

lemma sample_md5 [simp]: "md5 sample_env = toy_digest" "md5 offline_env = toy_digest"
  by (simp_all add: sample_env_def offline_env_def)

lemma sample_at:
  "sample_fs ''notes.txt'' = Some (File (sample_file [97] 1))"
  "sample_fs ''empty.txt'' = Some (File (sample_file [] 1))"
  "sample_fs ''report.docx'' = Some (File (sample_file [80, 75] 1))"
  "sample_fs ''gone.txt'' = None"
  by (simp_all add: sample_fs_def)

lemma sample_open_notes:
  "open_file sample_env sample_fs ''notes.txt'' = (Some ''a'', [ProcessingAs ''notes.txt'' ''.txt''])"
  "open_file offline_env sample_fs ''notes.txt'' = (Some ''a'', [ProcessingAs ''notes.txt'' ''.txt''])"
  by (simp_all add: Let_def open_file_def try_extract_def sample_at sample_file_def max_size_def
      offline_env_def sample_env_def sample_suffixes handlers_def sample_handler_def
      sample_decode_values)

lemma sample_open_docx:
  "open_file sample_env sample_fs ''report.docx''
     = (None, [ProcessingAs ''report.docx'' ''.docx'',
               FailedToRead ''report.docx'' (PyException ''NameError'')])"
  by (simp add: Let_def open_file_def try_extract_def sample_at sample_file_def max_size_def
      sample_env_def sample_suffixes handlers_def sample_handler_def read_docx_raises)

lemma offline_process_notes:
  "process offline_env sample_fs ''notes.txt'' empty_state =
     (Inr (), \<lparr>files = [''notes.txt'' \<mapsto> (1, hexdigest (toy_digest [97]))],
               collection = Map.empty,
               trace = [EmbedCall ''a''],
               out = [NewFile ''notes.txt'', ProcessingAs ''notes.txt'' ''.txt'',
                      EmbedFailed ''a'', ErrorCaught (PyException ''ConnectionError'')]\<rparr>)"
proof -
  have n: "map_option snd (files empty_state ''notes.txt'')
             \<noteq> Some (hexdigest (md5 offline_env (file_bytes sample_fs ''notes.txt'')))"
    by (simp add: empty_state_def)
  have e: "embed_content offline_env ''a'' = Inl (PyException ''ConnectionError'')"
    by (simp add: offline_env_def)
  show ?thesis
    unfolding process_index [OF sample_readable(1) sample_at(1) n]
    by (simp add: add_to_vector_db_def sample_open_notes embedding_def e discard_def
        sample_bytes sample_file_def empty_state_def
        say_def says_def called_def upsert_file_record_def)
qed

lemma process_files_other:
  assumes "q \<noteq> p"
  shows "files (snd (process e fs p s)) q = files s q"
proof (cases "unreadable fs p")
  case True
  from process_skip [OF this, of e s] show ?thesis by auto
next
  case False
  then obtain f where f: "fs p = Some (File f)"
    using getmtime_if_readable by blast
  show ?thesis
  proof (cases "map_option snd (files s p) = Some (hexdigest (md5 e (file_bytes fs p)))")
    case True
    then obtain t where "files s p = Some (t, hexdigest (md5 e (file_bytes fs p)))"
      by (cases "files s p") auto
    from process_unchanged [OF False this] show ?thesis by simp
  next
    case ch: False
    show ?thesis
      unfolding process_index [OF False f ch]
      using assms by (simp add: add_to_vector_db_files)
  qed
qed

lemma process_collection_other:
  assumes "q \<noteq> p"
  shows "collection (snd (process e fs p s)) q = collection s q"
proof (cases "unreadable fs p")
  case True
  from process_skip [OF this, of e s] show ?thesis by auto
next
  case False
  then obtain f where f: "fs p = Some (File f)"
    using getmtime_if_readable by blast
  show ?thesis
  proof (cases "map_option snd (files s p) = Some (hexdigest (md5 e (file_bytes fs p)))")
    case True
    then obtain t where "files s p = Some (t, hexdigest (md5 e (file_bytes fs p)))"
      by (cases "files s p") auto
    from process_unchanged [OF False this] show ?thesis by simp
  next
    case ch: False
    show ?thesis
      unfolding process_index [OF False f ch]
      using assms by (simp add: add_to_vector_db_collection_other)
  qed
qed

lemma process_tracks:
  assumes "\<not> unreadable fs p"
  shows "map_option snd (files (snd (process e fs p s)) p)
           = Some (hexdigest (md5 e (file_bytes fs p)))"
proof -
  obtain f where f: "fs p = Some (File f)"
    using assms getmtime_if_readable by blast
  show ?thesis
  proof (cases "map_option snd (files s p) = Some (hexdigest (md5 e (file_bytes fs p)))")
    case True
    then obtain t where "files s p = Some (t, hexdigest (md5 e (file_bytes fs p)))"
      by (cases "files s p") auto
    from process_unchanged [OF assms this] True show ?thesis by simp
  next
    case ch: False
    show ?thesis
      unfolding process_index [OF assms f ch]
      by (simp add: add_to_vector_db_files)
  qed
qed

lemma process_files_skip:
  assumes "unreadable fs p"
  shows "files (snd (process e fs p s)) = files s"
  using process_skip [OF assms, of e s] by auto

lemma file_bytes_at: "fs p = Some (File f) \<Longrightarrow> file_bytes fs p = content f"
  by (simp add: file_bytes_def)

lemma dispatch_file_event:
  "ev \<in> {Created False p, Modified False p} \<Longrightarrow> dispatch e fs ev s = process e fs p s"
  by (auto simp: on_created_def on_modified_def)

lemma empty_file_step:
  assumes "\<not> unreadable fs p" and "file_bytes fs p = []"
  shows "collection (snd (process e fs p s)) = collection s
         \<and> trace (snd (process e fs p s)) = trace s
         \<and> map_option snd (files (snd (process e fs p s)) p) = Some (hexdigest (md5 e []))"
proof -
  obtain f where f: "fs p = Some (File f)"
    using assms(1) getmtime_if_readable by blast
  then have c: "content f = []"
    using assms(2) by (simp add: file_bytes_def)
  have o: "open_file e fs p = (Some [], [EmptyFile p])"
    using f c by (rule open_file_empty)
  show ?thesis
  proof (cases "map_option snd (files s p) = Some (hexdigest (md5 e (file_bytes fs p)))")
    case True
    then obtain t where "files s p = Some (t, hexdigest (md5 e (file_bytes fs p)))"
      by (cases "files s p") auto
    from process_unchanged [OF assms(1) this] True assms(2) show ?thesis by simp
  next
    case ch: False
    have a: "\<And>s'. add_to_vector_db e fs p s' = (Inr False, says [EmptyFile p] s')"
      using add_to_vector_db_no_text [of e fs p] o by simp
    show ?thesis
      unfolding process_index [OF assms(1) f ch]
      by (simp add: a assms(2))
  qed
qed

lemma empty_file_run:
  assumes "\<forall>(fs, ev) \<in> set steps.
             \<not> unreadable fs p \<and> file_bytes fs p = [] \<and> ev \<in> {Created False p, Modified False p}"
  shows "collection (run_events e steps s) = collection s
         \<and> trace (run_events e steps s) = trace s
         \<and> (steps \<noteq> [] \<longrightarrow>
              map_option snd (files (run_events e steps s) p) = Some (hexdigest (md5 e [])))"
  using assms
proof (induction steps arbitrary: s)
  case Nil
  then show ?case by simp
next
  case (Cons st rest)
  obtain fs ev where st: "st = (fs, ev)" by (cases st)
  from Cons.prems st have r: "\<not> unreadable fs p" and b: "file_bytes fs p = []"
    and ev: "ev \<in> {Created False p, Modified False p}" by auto
  let ?s1 = "snd (dispatch e fs ev s)"
  have d: "dispatch e fs ev s = process e fs p s"
    using ev by (rule dispatch_file_event)
  from empty_file_step [OF r b, of e s] d
  have one: "collection ?s1 = collection s" "trace ?s1 = trace s"
    "map_option snd (files ?s1 p) = Some (hexdigest (md5 e []))" by simp_all
  from Cons.prems have "\<forall>(fs, ev) \<in> set rest.
      \<not> unreadable fs p \<and> file_bytes fs p = [] \<and> ev \<in> {Created False p, Modified False p}"
    by simp
  from Cons.IH [OF this, of ?s1] one show ?case
    by (cases "rest = []") (simp_all add: st)
qed

lemma touched_facts:
  "\<not> unreadable touched_fs ''empty.txt''" "file_bytes touched_fs ''empty.txt'' = []"
  "\<not> unreadable touched_fs ''notes.txt''" "file_bytes touched_fs ''notes.txt'' = [97]"
  by (simp_all add: unreadable_def file_bytes_def touched_fs_def sample_file_def)

lemma sample_empty_steps:
  "\<forall>(fs, ev) \<in> set [(sample_fs, Created False ''empty.txt''), (touched_fs, Modified False ''empty.txt'')].
     \<not> unreadable fs ''empty.txt'' \<and> file_bytes fs ''empty.txt'' = []
     \<and> ev \<in> {Created False ''empty.txt'', Modified False ''empty.txt''}"
  "\<forall>(fs, ev) \<in> set [(sample_fs, Modified False ''empty.txt''), (sample_fs, Modified False ''empty.txt'')].
     \<not> unreadable fs ''empty.txt'' \<and> file_bytes fs ''empty.txt'' = []
     \<and> ev \<in> {Created False ''empty.txt'', Modified False ''empty.txt''}"
  by (simp_all add: sample_readable sample_bytes touched_facts)

lemma open_file_sized:
  assumes "fs p = Some (File f)" and "0 < length (content f)"
    and "length (content f) \<le> 50 * 1024 * 1024"
  shows "open_file e fs p =
           (case try_extract e p f of
              (Inr t, ms) \<Rightarrow> (Some t, ms)
            | (Inl x, ms) \<Rightarrow> (None, ms @ [FailedToRead p x]))"
  using assms by (simp add: open_file_def max_size_def)

lemma sample_open_failures:
  "open_file sample_env sample_fs ''photo.png''
     = (None, [ProcessingAs ''photo.png'' ''.png'',
               FailedToRead ''photo.png'' (PyException ''NameError'')])"
  "open_file sample_env sample_fs ''data.xyz''
     = (None, [FailedToRead ''data.xyz'' (PyException ''NameError'')])"
proof -
  have s: "0 < length (content (sample_file [137, 80] 1))"
    "length (content (sample_file [137, 80] 1)) \<le> 50 * 1024 * 1024"
    "0 < length (content (sample_file [1, 2] 1))"
    "length (content (sample_file [1, 2] 1)) \<le> 50 * 1024 * 1024"
    by (simp_all add: sample_file_def)
  have i: "try_extract sample_env ''photo.png'' (sample_file [137, 80] 1)
             = (Inl (PyException ''NameError''), [ProcessingAs ''photo.png'' ''.png''])"
    by (simp add: Let_def try_extract_def sample_env_def sample_suffixes handlers_def
        sample_handler_def read_image_raises)
  have u: "try_extract sample_env ''data.xyz'' (sample_file [1, 2] 1)
             = (Inl (PyException ''NameError''), [])"
    by (simp add: Let_def try_extract_def sample_env_def sample_suffixes handlers_def
        mimetypes_guess_type_raises)
  show "open_file sample_env sample_fs ''photo.png''
     = (None, [ProcessingAs ''photo.png'' ''.png'',
               FailedToRead ''photo.png'' (PyException ''NameError'')])"
    by (simp add: open_file_sized [where fs = sample_fs and p = "''photo.png''"
          and f = "sample_file [137, 80] 1", OF sample_more(3) s(1,2)] i)
  show "open_file sample_env sample_fs ''data.xyz''
     = (None, [FailedToRead ''data.xyz'' (PyException ''NameError'')])"
    by (simp add: open_file_sized [where fs = sample_fs and p = "''data.xyz''"
          and f = "sample_file [1, 2] 1", OF sample_more(4) s(3,4)] u)
qed

lemma unextracted_path_unindexed:
  assumes "\<not> unreadable fs p" and "fst (open_file e fs p) = None" and "files s p = None"
  shows "collection (snd (process e fs p s)) = collection s
         \<and> trace (snd (process e fs p s)) = trace s
         \<and> files (snd (process e fs p s)) p \<noteq> None"
proof -
  obtain f where f: "fs p = Some (File f)"
    using assms(1) getmtime_if_readable by blast
  have ch: "map_option snd (files s p) \<noteq> Some (hexdigest (md5 e (file_bytes fs p)))"
    using assms(3) by simp
  have a: "\<And>s'. add_to_vector_db e fs p s' = (Inr False, says (snd (open_file e fs p)) s')"
    using add_to_vector_db_no_text [of e fs p] assms(2) by simp
  show ?thesis
    unfolding process_index [OF assms(1) f ch]
    by (simp add: a)
qed

lemma copy_facts:
  "\<not> unreadable copy_fs ''archive/copy.md''" "file_bytes copy_fs ''archive/copy.md'' = [97]"
  "unreadable copy_fs ''draft.txt''" "copy_fs ''draft.txt'' = None"
  by (simp_all add: unreadable_def file_bytes_def copy_fs_def sample_file_def)

lemma indexed_state_fields:
  "files indexed_state ''notes.txt'' = Some (0, hexdigest (toy_digest [97]))"
  "collection indexed_state ''notes.txt''
     = Some \<lparr>document = ''a'', source = ''notes.txt'', embedding_of = [1]\<rparr>"
  "files indexed_state ''orphan.txt'' = None"
  "collection indexed_state ''orphan.txt''
     = Some \<lparr>document = ''a'', source = ''orphan.txt'', embedding_of = [1]\<rparr>"
  "files indexed_state ''draft.txt'' = None"
  by (simp_all add: indexed_state_def tracked_state_def empty_state_def)

subsection \<open>The size limit of extraction\<close>

text \<open>
  C8. A regular file of more than 50 MiB (52428800 bytes) is rejected by \<^verbatim>\<open>open_file\<close>:
  it returns \<^verbatim>\<open>None\<close>, no text, and logs "File too large" and nothing else, whatever the
  extraction routines and the MIME type detection would do (they are not called).
\<close>

theorem open_file_too_large:
  assumes "fs p = Some (File f)" and "length (content f) > 50 * 1024 * 1024"
  shows "open_file e fs p = (None, [FileTooLarge p (length (content f)) (50 * 1024 * 1024)])"
  using assms by (simp add: open_file_def max_size_def)

theorem open_file_too_large_witness:
  "large_fs ''big.bin'' = Some (File (sample_file big_bytes 1)) \<and>
   length (content (sample_file big_bytes 1)) > 50 * 1024 * 1024 \<and>
   open_file sample_env large_fs ''big.bin'' = (None, [FileTooLarge ''big.bin'' 52428801 52428800])"
proof -
  have len: "length big_bytes = 52428801"
    by (simp only: big_bytes_def length_replicate)
  have at: "large_fs ''big.bin'' = Some (File (sample_file big_bytes 1))"
    by (simp add: large_fs_def)
  have big: "length (content (sample_file big_bytes 1)) > 50 * 1024 * 1024"
    by (simp add: sample_file_def len)
  from at big len
    open_file_too_large [of large_fs "''big.bin''" "sample_file big_bytes 1" sample_env]
  show ?thesis
    by (simp add: sample_file_def)
qed

subsection \<open>The content hash\<close>

text \<open>
  C9. The hash of a path is the hexadecimal digest of the file's whole byte content and
  of nothing else: it is \<^verbatim>\<open>None\<close> (a value, with an "Error hashing file" line, not an
  exception) exactly when the path cannot be read, and otherwise the digest of its bytes.
  So two readable files with the same bytes have the same hash, whatever their paths
  and modification times, and every hash has 32 characters.
\<close>

theorem compute_file_hash_of_content:
  "fst (compute_file_hash e fs p) =
     (if unreadable fs p then None else Some (hexdigest (md5 e (file_bytes fs p))))
   \<and> (\<not> unreadable fs p \<and> \<not> unreadable fs' p' \<and> file_bytes fs p = file_bytes fs' p'
        \<longrightarrow> fst (compute_file_hash e fs p) = fst (compute_file_hash e fs' p'))
   \<and> (\<forall>h. fst (compute_file_hash e fs p) = Some h \<longrightarrow> length h = 32)"
  by (auto simp: compute_file_hash_def hash_body_result length_hexdigest)

theorem compute_file_hash_of_content_witness:
  "\<not> unreadable sample_fs ''notes.txt'' \<and> \<not> unreadable copy_fs ''archive/copy.md''
   \<and> file_bytes sample_fs ''notes.txt'' = file_bytes copy_fs ''archive/copy.md''
   \<and> fst (compute_file_hash sample_env sample_fs ''notes.txt'')
       = fst (compute_file_hash sample_env copy_fs ''archive/copy.md'')
   \<and> fst (compute_file_hash sample_env sample_fs ''notes.txt'') = Some (hexdigest (toy_digest [97]))
   \<and> length (hexdigest (toy_digest [97])) = 32
   \<and> unreadable sample_fs ''locked.txt''
   \<and> fst (compute_file_hash sample_env sample_fs ''locked.txt'') = None"
proof -
  have r1: "\<not> unreadable sample_fs ''notes.txt''"
    by (simp add: unreadable_def sample_fs_def sample_file_def)
  have r2: "\<not> unreadable copy_fs ''archive/copy.md''"
    by (simp add: unreadable_def copy_fs_def sample_file_def)
  have r3: "unreadable sample_fs ''locked.txt''"
    by (simp add: unreadable_def sample_fs_def sample_file_def)
  have b1: "file_bytes sample_fs ''notes.txt'' = [97]"
    by (simp add: file_bytes_def sample_fs_def sample_file_def)
  have b2: "file_bytes copy_fs ''archive/copy.md'' = [97]"
    by (simp add: file_bytes_def copy_fs_def sample_file_def)
  have m: "md5 sample_env = toy_digest"
    by (simp add: sample_env_def)
  from r1 r2 r3 b1 b2 m
       compute_file_hash_of_content
         [of sample_env sample_fs "''notes.txt''" copy_fs "''archive/copy.md''"]
       compute_file_hash_of_content
         [of sample_env sample_fs "''locked.txt''" copy_fs "''archive/copy.md''"]
  show ?thesis by (auto simp: length_hexdigest)
qed

subsection \<open>Events on a path whose content is unchanged\<close>

text \<open>
  C2. A Created or Modified event on a path that can be read and whose computed hash
  equals the hash of its record is a no-op but for the line "Unchanged file": the record
  store and the index are as before and no embedding call and no \<^verbatim>\<open>collection.add\<close> call
  is made. Only the hashes are compared: nothing is assumed of the modification time
  of the file or of the one in the record.
\<close>

theorem unchanged_content_no_reindex:
  assumes "\<not> unreadable fs p"
    and "map_option snd (files s p) = Some (hexdigest (md5 e (file_bytes fs p)))"
  shows "\<forall>ev \<in> {Created False p, Modified False p}.
           dispatch e fs ev s = (Inr (), say (Unchanged p) s)
           \<and> files (snd (dispatch e fs ev s)) = files s
           \<and> collection (snd (dispatch e fs ev s)) = collection s
           \<and> embed_calls (snd (dispatch e fs ev s)) = embed_calls s
           \<and> add_calls (snd (dispatch e fs ev s)) = add_calls s"
proof -
  from assms(2) obtain t where "files s p = Some (t, hexdigest (md5 e (file_bytes fs p)))"
    by (cases "files s p") auto
  from process_unchanged [OF assms(1) this]
  show ?thesis
    by (simp add: on_created_def on_modified_def embed_calls_def add_calls_def)
qed

theorem unchanged_content_no_reindex_witness:
  "\<not> unreadable sample_fs ''notes.txt''
   \<and> map_option snd (files tracked_state ''notes.txt'')
       = Some (hexdigest (md5 sample_env (file_bytes sample_fs ''notes.txt'')))
   \<and> map_option fst (files tracked_state ''notes.txt'') = Some 0
   \<and> os_path_getmtime sample_fs ''notes.txt'' = Inr 1
   \<and> dispatch sample_env sample_fs (Modified False ''notes.txt'') tracked_state
       = (Inr (), say (Unchanged ''notes.txt'') tracked_state)
   \<and> dispatch sample_env sample_fs (Created False ''notes.txt'') tracked_state
       = (Inr (), say (Unchanged ''notes.txt'') tracked_state)"
proof -
  have a: "map_option snd (files tracked_state ''notes.txt'')
       = Some (hexdigest (md5 sample_env (file_bytes sample_fs ''notes.txt'')))"
    by (simp add: tracked_state_def empty_state_def sample_bytes)
  have b: "map_option fst (files tracked_state ''notes.txt'') = Some 0"
    by (simp add: tracked_state_def empty_state_def)
  have c: "os_path_getmtime sample_fs ''notes.txt'' = Inr 1"
    by (simp add: os_path_getmtime_def sample_fs_def sample_file_def)
  from unchanged_content_no_reindex [OF sample_readable(1) a] sample_readable(1) a b c
  show ?thesis by simp
qed

subsection \<open>Events on a path that is missing or cannot be hashed\<close>

text \<open>
  C7. A Created or Modified event on a path that does not exist when it is processed, or
  whose hash cannot be computed, returns normally and leaves the record store, the index
  and the list of backend calls as they were.
\<close>

theorem missing_or_unhashable_skipped:
  assumes "\<not> os_path_exists fs p \<or> fst (compute_file_hash e fs p) = None"
  shows "\<forall>ev \<in> {Created False p, Modified False p}.
           fst (dispatch e fs ev s) = Inr ()
           \<and> files (snd (dispatch e fs ev s)) = files s
           \<and> collection (snd (dispatch e fs ev s)) = collection s
           \<and> trace (snd (dispatch e fs ev s)) = trace s"
proof -
  have "unreadable fs p"
    using assms exists_if_readable [of fs p]
    by (cases "unreadable fs p") (auto simp: compute_file_hash_fst)
  from process_skip [OF this, of e s] obtain ms where "process e fs p s = (Inr (), says ms s)"
    by blast
  then show ?thesis
    by (simp add: on_created_def on_modified_def)
qed

theorem missing_or_unhashable_skipped_witness:
  "\<not> os_path_exists sample_fs ''gone.txt''
   \<and> os_path_exists sample_fs ''locked.txt''
   \<and> fst (compute_file_hash sample_env sample_fs ''locked.txt'') = None
   \<and> fst (dispatch sample_env sample_fs (Modified False ''gone.txt'') tracked_state) = Inr ()
   \<and> files (snd (dispatch sample_env sample_fs (Modified False ''gone.txt'') tracked_state))
       = files tracked_state
   \<and> collection (snd (dispatch sample_env sample_fs (Modified False ''gone.txt'') tracked_state))
       = collection tracked_state
   \<and> trace (snd (dispatch sample_env sample_fs (Modified False ''gone.txt'') tracked_state))
       = trace tracked_state
   \<and> fst (dispatch sample_env sample_fs (Created False ''locked.txt'') tracked_state) = Inr ()
   \<and> files (snd (dispatch sample_env sample_fs (Created False ''locked.txt'') tracked_state))
       = files tracked_state
   \<and> collection (snd (dispatch sample_env sample_fs (Created False ''locked.txt'') tracked_state))
       = collection tracked_state
   \<and> trace (snd (dispatch sample_env sample_fs (Created False ''locked.txt'') tracked_state))
       = trace tracked_state"
proof -
  have a: "\<not> os_path_exists sample_fs ''gone.txt''"
    by (simp add: os_path_exists_def sample_fs_def)
  have b: "os_path_exists sample_fs ''locked.txt''"
    by (simp add: os_path_exists_def sample_fs_def)
  have c: "fst (compute_file_hash sample_env sample_fs ''locked.txt'') = None"
    by (simp add: compute_file_hash_fst sample_readable)
  from a b c
       missing_or_unhashable_skipped [of sample_fs "''gone.txt''" sample_env tracked_state]
       missing_or_unhashable_skipped [of sample_fs "''locked.txt''" sample_env tracked_state]
  show ?thesis by simp
qed

subsection \<open>The order of the record write and the index write\<close>

text \<open>
  C1, as the code has it. When a path can be hashed and has no record, or a record with
  another hash, \<^verbatim>\<open>process\<close> first writes the record with the new modification time and
  hash and then calls \<^verbatim>\<open>add_to_vector_db\<close>, whose result it ignores: afterwards the record
  of the path is the new one, whether extraction, embedding and \<^verbatim>\<open>collection.add\<close>
  succeeded, failed or raised.
\<close>

theorem record_upserted_before_indexing:
  assumes "\<not> unreadable fs p" and "fs p = Some (File f)"
    and "map_option snd (files s p) \<noteq> Some (hexdigest (md5 e (content f)))"
  shows "process e fs p s =
           discard (add_to_vector_db e fs p
             (upsert_file_record p (mtime f) (hexdigest (md5 e (content f)))
                (say (if files s p = None then NewFile p else ModifiedContent p) s)))
         \<and> files (snd (process e fs p s)) = (files s)(p \<mapsto> (mtime f, hexdigest (md5 e (content f))))"
proof -
  have b: "file_bytes fs p = content f"
    using assms(2) by (rule file_bytes_at)
  from assms(3) have ch: "map_option snd (files s p) \<noteq> Some (hexdigest (md5 e (file_bytes fs p)))"
    by (simp add: b)
  show ?thesis
    unfolding process_index [OF assms(1,2) ch]
    by (simp add: b add_to_vector_db_files)
qed

theorem record_upserted_before_indexing_witness:
  "\<not> unreadable sample_fs ''notes.txt''
   \<and> sample_fs ''notes.txt'' = Some (File (sample_file [97] 1))
   \<and> map_option snd (files empty_state ''notes.txt'')
        \<noteq> Some (hexdigest (md5 offline_env (content (sample_file [97] 1))))
   \<and> files (snd (process offline_env sample_fs ''notes.txt'' empty_state))
        = (files empty_state)(''notes.txt'' \<mapsto> (1, hexdigest (toy_digest [97])))"
proof -
  have n: "map_option snd (files empty_state ''notes.txt'')
        \<noteq> Some (hexdigest (md5 offline_env (content (sample_file [97] 1))))"
    by (simp add: empty_state_def)
  from record_upserted_before_indexing [OF sample_readable(1) sample_at(1) n, THEN conjunct2]
    sample_readable(1) sample_at(1) n
  show ?thesis by (simp add: sample_file_def)
qed

text \<open>
  C1, as the specification has it, fails: with the embedding service unreachable, the
  first event on \<^verbatim>\<open>notes.txt\<close> adds nothing to the index, and yet the path, which had no
  record, has one afterwards.
\<close>

theorem record_written_though_embedding_failed:
  "files empty_state ''notes.txt'' = None
   \<and> files (snd (process offline_env sample_fs ''notes.txt'' empty_state)) ''notes.txt''
        = Some (1, hexdigest (toy_digest [97]))
   \<and> collection (snd (process offline_env sample_fs ''notes.txt'' empty_state)) ''notes.txt'' = None
   \<and> trace (snd (process offline_env sample_fs ''notes.txt'' empty_state)) = [EmbedCall ''a'']
   \<and> out (snd (process offline_env sample_fs ''notes.txt'' empty_state))
        = [NewFile ''notes.txt'', ProcessingAs ''notes.txt'' ''.txt'',
           EmbedFailed ''a'', ErrorCaught (PyException ''ConnectionError'')]"
proof -
  have "files empty_state ''notes.txt'' = None"
    by (simp add: empty_state_def)
  then show ?thesis
    by (simp add: offline_process_notes)
qed

subsection \<open>Zero-byte files\<close>

text \<open>
  C10, as the code has it. Take any sequence of Created and Modified events on a path
  that, each time, is a readable file of zero bytes. For each of them \<^verbatim>\<open>open_file\<close>
  returns the empty string and \<^verbatim>\<open>add_to_vector_db\<close> returns \<^verbatim>\<open>False\<close> at once. After the
  sequence the index and the list of backend calls are what they were before it: no entry
  was added, changed or removed and no embedding was asked for, so a path that had no
  index entry has none, and a path that had one keeps it. The path has a record with the
  hash of the empty content, and one more such event is skipped as unchanged.
\<close>

theorem empty_file_tracked_not_indexed:
  assumes "\<forall>(fs, ev) \<in> set steps.
             \<not> unreadable fs p \<and> file_bytes fs p = [] \<and> ev \<in> {Created False p, Modified False p}"
    and "steps \<noteq> []"
  shows "(\<forall>(fs, ev) \<in> set steps.
            open_file e fs p = (Some [], [EmptyFile p])
            \<and> (\<forall>s'. add_to_vector_db e fs p s' = (Inr False, says [EmptyFile p] s')))
         \<and> collection (run_events e steps s) = collection s
         \<and> (collection s p = None \<longrightarrow> collection (run_events e steps s) p = None)
         \<and> trace (run_events e steps s) = trace s
         \<and> map_option snd (files (run_events e steps s) p) = Some (hexdigest (md5 e []))
         \<and> (\<forall>(fs, ev) \<in> set steps.
              dispatch e fs ev (run_events e steps s)
                = (Inr (), say (Unchanged p) (run_events e steps s)))"
proof -
  have ext: "\<forall>(fs, ev) \<in> set steps.
            open_file e fs p = (Some [], [EmptyFile p])
            \<and> (\<forall>s'. add_to_vector_db e fs p s' = (Inr False, says [EmptyFile p] s'))"
  proof (clarify, intro conjI allI)
    fix fs ev s'
    assume "(fs, ev) \<in> set steps"
    with assms(1) have r: "\<not> unreadable fs p" and b: "file_bytes fs p = []" by auto
    from r obtain f where f: "fs p = Some (File f)"
      using getmtime_if_readable by blast
    with b have "content f = []" by (simp add: file_bytes_def)
    with f show o: "open_file e fs p = (Some [], [EmptyFile p])" by (rule open_file_empty)
    show "add_to_vector_db e fs p s' = (Inr False, says [EmptyFile p] s')"
      using add_to_vector_db_no_text [of e fs p s'] o by simp
  qed
  note run = empty_file_run [OF assms(1), of e s]
  have later: "\<forall>(fs, ev) \<in> set steps.
              dispatch e fs ev (run_events e steps s)
                = (Inr (), say (Unchanged p) (run_events e steps s))"
  proof (clarify)
    fix fs ev
    assume "(fs, ev) \<in> set steps"
    with assms(1) have r: "\<not> unreadable fs p" and b: "file_bytes fs p = []"
      and ev: "ev \<in> {Created False p, Modified False p}" by auto
    from run assms(2) b
    have "map_option snd (files (run_events e steps s) p)
            = Some (hexdigest (md5 e (file_bytes fs p)))" by simp
    then obtain t where "files (run_events e steps s) p
            = Some (t, hexdigest (md5 e (file_bytes fs p)))"
      by (cases "files (run_events e steps s) p") auto
    from process_unchanged [OF r this] dispatch_file_event [OF ev]
    show "dispatch e fs ev (run_events e steps s)
                = (Inr (), say (Unchanged p) (run_events e steps s))" by simp
  qed
  from ext run later assms(2) show ?thesis by simp
qed


theorem empty_file_tracked_not_indexed_witness:
  "\<not> unreadable sample_fs ''empty.txt'' \<and> file_bytes sample_fs ''empty.txt'' = []
   \<and> \<not> unreadable touched_fs ''empty.txt'' \<and> file_bytes touched_fs ''empty.txt'' = []
   \<and> open_file sample_env sample_fs ''empty.txt'' = (Some [], [EmptyFile ''empty.txt''])
   \<and> collection (run_events sample_env
        [(sample_fs, Created False ''empty.txt''), (touched_fs, Modified False ''empty.txt'')]
        empty_state) = collection empty_state
   \<and> trace (run_events sample_env
        [(sample_fs, Created False ''empty.txt''), (touched_fs, Modified False ''empty.txt'')]
        empty_state) = trace empty_state
   \<and> map_option snd (files (run_events sample_env
        [(sample_fs, Created False ''empty.txt''), (touched_fs, Modified False ''empty.txt'')]
        empty_state) ''empty.txt'') = Some (hexdigest (toy_digest []))"
  using sample_readable(2) sample_bytes(2) touched_facts(1,2)
    empty_file_tracked_not_indexed [OF sample_empty_steps(1), where e = sample_env and s = empty_state]
  by simp

text \<open>
  C10, as the specification has it, fails: \<^verbatim>\<open>notes.txt\<close>, indexed with one byte of
  content and then truncated to zero bytes, gets its record updated to the hash of the
  empty content by the Modified event and is still in the index, with its old text.
\<close>

theorem truncated_file_keeps_stale_entry:
  "file_bytes truncated_fs ''notes.txt'' = []
   \<and> files indexed_state ''notes.txt'' = Some (0, hexdigest (toy_digest [97]))
   \<and> hexdigest (toy_digest [97]) \<noteq> hexdigest (toy_digest [])
   \<and> map_option snd (files (snd (dispatch sample_env truncated_fs (Modified False ''notes.txt'')
                                    indexed_state)) ''notes.txt'')
       = Some (hexdigest (toy_digest []))
   \<and> collection (snd (dispatch sample_env truncated_fs (Modified False ''notes.txt'')
                          indexed_state)) ''notes.txt''
       = Some \<lparr>document = ''a'', source = ''notes.txt'', embedding_of = [1]\<rparr>"
proof -
  have r: "\<not> unreadable truncated_fs ''notes.txt''"
    by (simp add: unreadable_def truncated_fs_def sample_file_def)
  have b: "file_bytes truncated_fs ''notes.txt'' = []"
    by (simp add: file_bytes_def truncated_fs_def sample_file_def)
  have d: "hexdigest (toy_digest [97]) \<noteq> hexdigest (toy_digest [])"
    by code_simp
  have ev: "dispatch sample_env truncated_fs (Modified False ''notes.txt'') indexed_state
          = process sample_env truncated_fs ''notes.txt'' indexed_state"
    by (simp add: on_modified_def)
  from empty_file_step [OF r b, of sample_env indexed_state] b d indexed_state_fields(1,2)
  show ?thesis
    unfolding ev by simp
qed

subsection \<open>The same Modified event, twice\<close>

text \<open>
  C3, as the code has it. Process a Modified event on a path and then the same event
  again, the file having the same bytes and being as readable as before (its modification
  time may differ). The second run changes neither the record store nor the index and
  calls no backend; in total at most one \<^verbatim>\<open>collection.add\<close> call is made; and exactly
  one is made when the first run finds the path readable, without a record of its current
  hash, extraction returns a text that is not empty and the embedding service returns a
  vector that is not empty.
\<close>

theorem repeated_modified_event:
  assumes "file_bytes fs' p = file_bytes fs p" and "unreadable fs' p = unreadable fs p"
  shows "files (run_events e [(fs, Modified False p), (fs', Modified False p)] s)
           = files (run_events e [(fs, Modified False p)] s)
         \<and> collection (run_events e [(fs, Modified False p), (fs', Modified False p)] s)
           = collection (run_events e [(fs, Modified False p)] s)
         \<and> trace (run_events e [(fs, Modified False p), (fs', Modified False p)] s)
           = trace (run_events e [(fs, Modified False p)] s)
         \<and> add_calls (run_events e [(fs, Modified False p), (fs', Modified False p)] s)
           \<le> Suc (add_calls s)
         \<and> (\<forall>t ms v. \<not> unreadable fs p
               \<and> map_option snd (files s p) \<noteq> Some (hexdigest (md5 e (file_bytes fs p)))
               \<and> open_file e fs p = (Some t, ms) \<and> t \<noteq> []
               \<and> embed_content e t = Inr v \<and> v \<noteq> []
             \<longrightarrow> add_calls (run_events e [(fs, Modified False p), (fs', Modified False p)] s)
                   = Suc (add_calls s))"
proof -
  let ?H = "hexdigest (md5 e (file_bytes fs p))"
  let ?s1 = "snd (process e fs p s)"
  let ?s2 = "snd (process e fs' p ?s1)"
  have r1: "run_events e [(fs, Modified False p)] s = ?s1"
    by (simp add: on_modified_def)
  have r2: "run_events e [(fs, Modified False p), (fs', Modified False p)] s = ?s2"
    by (simp add: on_modified_def)
  have sec: "files ?s2 = files ?s1 \<and> collection ?s2 = collection ?s1 \<and> trace ?s2 = trace ?s1"
  proof (cases "unreadable fs p")
    case True
    with assms(2) have "unreadable fs' p" by simp
    from process_skip [OF this, of e ?s1] obtain ms' where
      "process e fs' p ?s1 = (Inr (), says ms' ?s1)" by blast
    then show ?thesis by simp
  next
    case False
    then have r': "\<not> unreadable fs' p" using assms(2) by simp
    from process_tracks [OF False, of e s]
    obtain t1 where t1: "files ?s1 p = Some (t1, hexdigest (md5 e (file_bytes fs' p)))"
      by (cases "files ?s1 p") (auto simp: assms(1))
    have "process e fs' p ?s1 = (Inr (), say (Unchanged p) ?s1)"
      using r' t1 by (rule process_unchanged)
    then show ?thesis by simp
  qed
  have cnt: "add_calls ?s1 \<le> Suc (add_calls s)
     \<and> (\<forall>t ms v. \<not> unreadable fs p \<and> map_option snd (files s p) \<noteq> Some ?H
               \<and> open_file e fs p = (Some t, ms) \<and> t \<noteq> []
               \<and> embed_content e t = Inr v \<and> v \<noteq> []
             \<longrightarrow> add_calls ?s1 = Suc (add_calls s))"
  proof (cases "unreadable fs p")
    case True
    from process_skip [OF True, of e s] obtain ms where "process e fs p s = (Inr (), says ms s)"
      by blast
    then have "add_calls ?s1 = add_calls s" by (simp add: add_calls_def)
    with True show ?thesis by simp
  next
    case False
    obtain f where f: "fs p = Some (File f)"
      using False getmtime_if_readable by blast
    show ?thesis
    proof (cases "map_option snd (files s p) = Some ?H")
      case True
      then obtain t where "files s p = Some (t, ?H)"
        by (cases "files s p") auto
      from process_unchanged [OF False this]
      have "add_calls ?s1 = add_calls s" by (simp add: add_calls_def)
      with True show ?thesis by simp
    next
      case ch: False
      let ?s0 = "upsert_file_record p (mtime f) ?H
                   (say (if files s p = None then NewFile p else ModifiedContent p) s)"
      have p1: "?s1 = snd (add_to_vector_db e fs p ?s0)"
        by (simp add: process_index [OF False f ch])
      have c0: "add_calls ?s0 = add_calls s" "trace ?s0 = trace s"
        by (simp_all add: add_calls_def)
      have le: "add_calls ?s1 \<le> Suc (add_calls s)"
        using add_to_vector_db_add_calls [of e fs p ?s0] by (simp only: p1 c0)
      have ex: "add_calls ?s1 = Suc (add_calls s)"
        if "open_file e fs p = (Some t, ms)" "t \<noteq> []" "embed_content e t = Inr v" "v \<noteq> []"
        for t ms v
      proof -
        from add_to_vector_db_indexed [OF that, of ?s0]
        have "trace ?s1 = trace s @ [EmbedCall t, AddCall p]"
          by (simp only: p1 c0)
        then show ?thesis by (simp add: add_calls_def)
      qed
      from le ex show ?thesis by blast
    qed
  qed
  have "add_calls ?s2 = add_calls ?s1"
    using sec by (simp add: add_calls_def)
  with sec cnt show ?thesis
    unfolding r1 r2 by simp
qed

theorem repeated_modified_event_witness:
  "file_bytes touched_fs ''notes.txt'' = file_bytes sample_fs ''notes.txt''
   \<and> unreadable touched_fs ''notes.txt'' = unreadable sample_fs ''notes.txt''
   \<and> files (run_events sample_env
         [(sample_fs, Modified False ''notes.txt''), (touched_fs, Modified False ''notes.txt'')] empty_state)
       = files (run_events sample_env [(sample_fs, Modified False ''notes.txt'')] empty_state)
   \<and> collection (run_events sample_env
         [(sample_fs, Modified False ''notes.txt''), (touched_fs, Modified False ''notes.txt'')] empty_state)
       = collection (run_events sample_env [(sample_fs, Modified False ''notes.txt'')] empty_state)
   \<and> add_calls empty_state = 0
   \<and> add_calls (run_events sample_env
         [(sample_fs, Modified False ''notes.txt''), (touched_fs, Modified False ''notes.txt'')] empty_state)
       = 1"
proof -
  have b: "file_bytes touched_fs ''notes.txt'' = file_bytes sample_fs ''notes.txt''"
    by (simp add: touched_facts sample_bytes)
  have u: "unreadable touched_fs ''notes.txt'' = unreadable sample_fs ''notes.txt''"
    by (simp add: touched_facts sample_readable)
  have z: "add_calls empty_state = 0"
    by (simp add: add_calls_def empty_state_def)
  have n: "map_option snd (files empty_state ''notes.txt'')
        \<noteq> Some (hexdigest (md5 sample_env (file_bytes sample_fs ''notes.txt'')))"
    by (simp add: empty_state_def)
  have v: "embed_content sample_env ''a'' = Inr [1]" "[1::real] \<noteq> []" "''a'' \<noteq> []"
    by (simp_all add: sample_env_def)
  note th = repeated_modified_event [OF b u, where e = sample_env and s = empty_state]
  from th sample_readable(1) n sample_open_notes(1) v
  have "add_calls (run_events sample_env
         [(sample_fs, Modified False ''notes.txt''), (touched_fs, Modified False ''notes.txt'')] empty_state)
       = Suc (add_calls empty_state)"
    by blast
  with th b u z show ?thesis by simp
qed

text \<open>
  C3, as the specification has it, fails: two Modified events on a new file of zero
  bytes make no \<^verbatim>\<open>collection.add\<close> call at all, though the path gets its record.
\<close>

theorem repeated_event_on_empty_file_adds_nothing:
  "add_calls empty_state = 0
   \<and> add_calls (run_events sample_env
        [(sample_fs, Modified False ''empty.txt''), (sample_fs, Modified False ''empty.txt'')]
        empty_state) = 0
   \<and> files (run_events sample_env
        [(sample_fs, Modified False ''empty.txt''), (sample_fs, Modified False ''empty.txt'')]
        empty_state) ''empty.txt'' \<noteq> None"
proof -
  have z: "trace empty_state = []"
    by (simp add: empty_state_def)
  from empty_file_run [OF sample_empty_steps(2), of sample_env empty_state] z
  show ?thesis
    by (auto simp: add_calls_def)
qed


subsection \<open>Extraction that fails\<close>

text \<open>
  C4 on the code. The image routine catches what OCR raises and builds the placeholder
  \<^verbatim>\<open>[IMAGE FILE] name\<close> with \<^verbatim>\<open>os.path.basename\<close>; \<^verbatim>\<open>FileHandler.py\<close> imports neither
  \<^verbatim>\<open>pytesseract\<close> nor \<^verbatim>\<open>os\<close>, so the routine raises \<^verbatim>\<open>NameError\<close> whatever the file, and so
  does the MIME type lookup that precedes the fallback to reading an unknown format as
  text. The catch-all of \<^verbatim>\<open>open_file\<close> turns both into \<^verbatim>\<open>None\<close>: for \<^verbatim>\<open>photo.png\<close> and for
  \<^verbatim>\<open>data.xyz\<close> no placeholder and no text is returned, \<^verbatim>\<open>add_to_vector_db\<close> returns
  \<^verbatim>\<open>False\<close>, and after the event the path has a record and no index entry.
\<close>

theorem image_and_unknown_format_get_no_placeholder:
  "read_image ocr basename p f = Inl (PyException ''NameError'')
   \<and> mimetypes_guess_type table p = Inl (PyException ''NameError'')
   \<and> run_handler sample_env ReadImage ''photo.png'' (sample_file [137, 80] 1)
       = read_image sample_parse sample_name ''photo.png'' (sample_file [137, 80] 1)
   \<and> guess_type sample_env ''data.xyz'' = mimetypes_guess_type (\<lambda>p. None) ''data.xyz''
   \<and> open_file sample_env sample_fs ''photo.png''
       = (None, [ProcessingAs ''photo.png'' ''.png'',
                 FailedToRead ''photo.png'' (PyException ''NameError'')])
   \<and> fst (add_to_vector_db sample_env sample_fs ''photo.png'' empty_state) = Inr False
   \<and> collection (snd (process sample_env sample_fs ''photo.png'' empty_state)) ''photo.png'' = None
   \<and> files (snd (process sample_env sample_fs ''photo.png'' empty_state)) ''photo.png'' \<noteq> None
   \<and> open_file sample_env sample_fs ''data.xyz''
       = (None, [FailedToRead ''data.xyz'' (PyException ''NameError'')])
   \<and> fst (add_to_vector_db sample_env sample_fs ''data.xyz'' empty_state) = Inr False
   \<and> collection (snd (process sample_env sample_fs ''data.xyz'' empty_state)) ''data.xyz'' = None
   \<and> files (snd (process sample_env sample_fs ''data.xyz'' empty_state)) ''data.xyz'' \<noteq> None"
proof -
  have h: "run_handler sample_env ReadImage ''photo.png'' (sample_file [137, 80] 1)
       = read_image sample_parse sample_name ''photo.png'' (sample_file [137, 80] 1)"
    by (simp add: sample_env_def sample_handler_def)
  have g: "guess_type sample_env ''data.xyz'' = mimetypes_guess_type (\<lambda>p. None) ''data.xyz''"
    by (simp add: sample_env_def)
  have z: "files empty_state ''photo.png'' = None" "files empty_state ''data.xyz'' = None"
    "collection empty_state ''photo.png'' = None" "collection empty_state ''data.xyz'' = None"
    by (simp_all add: empty_state_def)
  have o: "fst (open_file sample_env sample_fs ''photo.png'') = None"
    "fst (open_file sample_env sample_fs ''data.xyz'') = None"
    by (simp_all add: sample_open_failures)
  have a: "fst (add_to_vector_db sample_env sample_fs ''photo.png'' empty_state) = Inr False"
    "fst (add_to_vector_db sample_env sample_fs ''data.xyz'' empty_state) = Inr False"
    using add_to_vector_db_no_text [of sample_env sample_fs "''photo.png''" empty_state]
      add_to_vector_db_no_text [of sample_env sample_fs "''data.xyz''" empty_state] o
    by simp_all
  note i = unextracted_path_unindexed [OF sample_more(1) o(1) z(1)]
  note u = unextracted_path_unindexed [OF sample_more(2) o(2) z(2)]
  from h g a i u z(3,4) show ?thesis
    by (simp add: read_image_raises mimetypes_guess_type_raises sample_open_failures)
qed

subsection \<open>Moved files\<close>

text \<open>
  C5, as the code has it. A Moved event on a file deletes the record of the source path,
  asks the index to delete the entry of the source path, and then processes the
  destination path as a Created or Modified event would. Afterwards, when the two paths
  differ, the source path has no record, and no index entry unless \<^verbatim>\<open>collection.delete\<close>
  raised; the destination path, when it can be read, has a record with the hash of its
  current bytes, and when it is missing or cannot be hashed its record is as it was.
\<close>

theorem moved_event_result:
  "dispatch e fs (Moved False a b) s
     = process e fs b (delete_from_vector_db e a (delete_file_record a (say (FileMoved a b) s)))
   \<and> (a \<noteq> b \<longrightarrow> files (snd (dispatch e fs (Moved False a b) s)) a = None)
   \<and> (a \<noteq> b \<and> delete_fault e a = None \<longrightarrow>
         collection (snd (dispatch e fs (Moved False a b) s)) a = None)
   \<and> (\<not> unreadable fs b \<longrightarrow>
         map_option snd (files (snd (dispatch e fs (Moved False a b) s)) b)
           = Some (hexdigest (md5 e (file_bytes fs b))))
   \<and> (unreadable fs b \<and> a \<noteq> b \<longrightarrow>
         files (snd (dispatch e fs (Moved False a b) s)) b = files s b)"
proof -
  let ?s0 = "delete_from_vector_db e a (delete_file_record a (say (FileMoved a b) s))"
  have d: "dispatch e fs (Moved False a b) s = process e fs b ?s0"
    by (simp add: on_moved_def)
  have f0: "files ?s0 = (files s)(a := None)"
    by (simp add: delete_from_vector_db_fields)
  have c0: "delete_fault e a = None \<Longrightarrow> collection ?s0 a = None"
    by (simp add: delete_from_vector_db_fields)
  have 1: "a \<noteq> b \<Longrightarrow> files (snd (process e fs b ?s0)) a = None"
    using process_files_other [of a b e fs ?s0] f0 by simp
  have 2: "a \<noteq> b \<Longrightarrow> delete_fault e a = None \<Longrightarrow> collection (snd (process e fs b ?s0)) a = None"
    using process_collection_other [of a b e fs ?s0] c0 by simp
  have 3: "\<not> unreadable fs b \<Longrightarrow>
         map_option snd (files (snd (process e fs b ?s0)) b)
           = Some (hexdigest (md5 e (file_bytes fs b)))"
    by (rule process_tracks)
  have 4: "unreadable fs b \<Longrightarrow> a \<noteq> b \<Longrightarrow> files (snd (process e fs b ?s0)) b = files s b"
    using process_files_skip [of fs b e ?s0] f0 by simp
  from 1 2 3 4 show ?thesis
    unfolding d by blast
qed

theorem moved_event_result_witness:
  "''notes.txt'' \<noteq> ''archive/copy.md'' \<and> delete_fault sample_env ''notes.txt'' = None
   \<and> \<not> unreadable copy_fs ''archive/copy.md''
   \<and> files indexed_state ''notes.txt'' \<noteq> None \<and> collection indexed_state ''notes.txt'' \<noteq> None
   \<and> files (snd (dispatch sample_env copy_fs (Moved False ''notes.txt'' ''archive/copy.md'')
               indexed_state)) ''notes.txt'' = None
   \<and> collection (snd (dispatch sample_env copy_fs (Moved False ''notes.txt'' ''archive/copy.md'')
               indexed_state)) ''notes.txt'' = None
   \<and> map_option snd (files (snd (dispatch sample_env copy_fs
               (Moved False ''notes.txt'' ''archive/copy.md'') indexed_state)) ''archive/copy.md'')
       = Some (hexdigest (toy_digest [97]))"
proof -
  have ne: "''notes.txt'' \<noteq> ''archive/copy.md''" by simp
  have df: "delete_fault sample_env ''notes.txt'' = None" by (simp add: sample_env_def)
  from ne df copy_facts(1,2) indexed_state_fields(1,2)
    moved_event_result [of sample_env copy_fs "''notes.txt''" "''archive/copy.md''" indexed_state,
      THEN conjunct2]
  show ?thesis by simp
qed

text \<open>
  C5, as the specification has it, fails: when the destination is no longer on disk as
  the event is processed (it was renamed again, or deleted), it has no record afterwards.
\<close>

theorem moved_to_missing_destination_untracked:
  "copy_fs ''draft.txt'' = None
   \<and> files (snd (dispatch sample_env copy_fs (Moved False ''notes.txt'' ''draft.txt'')
               indexed_state)) ''draft.txt'' = None"
proof -
  have ne: "''notes.txt'' \<noteq> ''draft.txt''" by simp
  have d: "dispatch sample_env copy_fs (Moved False ''notes.txt'' ''draft.txt'') indexed_state
     = process sample_env copy_fs ''draft.txt''
         (delete_from_vector_db sample_env ''notes.txt''
            (delete_file_record ''notes.txt'' (say (FileMoved ''notes.txt'' ''draft.txt'') indexed_state)))"
    by (simp add: on_moved_def)
  show ?thesis
    unfolding d
    by (simp add: process_files_skip [OF copy_facts(3)] delete_from_vector_db_fields
        indexed_state_fields copy_facts)
qed

subsection \<open>Deleted files\<close>

text \<open>
  C6, as the code has it. Deleting a record twice is deleting it once, and deleting the
  record of a path that has none changes nothing. A Deleted event on a file returns
  normally, whether or not the path had a record, and afterwards the path has no record.
  Its index entry is removed when \<^verbatim>\<open>collection.delete\<close> returns; when that call raises,
  \<^verbatim>\<open>delete_from_vector_db\<close> prints "Delete failed" and the entry is what it was. The
  records and entries of other paths are as before.
\<close>

theorem delete_is_idempotent_and_total:
  "delete_file_record p (delete_file_record p s) = delete_file_record p s
   \<and> (files s p = None \<longrightarrow> delete_file_record p s = s)
   \<and> fst (dispatch e fs (Deleted False p) s) = Inr ()
   \<and> files (snd (dispatch e fs (Deleted False p) s)) p = None
   \<and> collection (snd (dispatch e fs (Deleted False p) s)) p
       = (if delete_fault e p = None then None else collection s p)
   \<and> (\<forall>q. q \<noteq> p \<longrightarrow>
         files (snd (dispatch e fs (Deleted False p) s)) q = files s q
         \<and> collection (snd (dispatch e fs (Deleted False p) s)) q = collection s q)"
proof -
  have "files s p = None \<Longrightarrow> (files s)(p := None) = files s"
    by (rule ext) simp
  then have noop: "files s p = None \<Longrightarrow> delete_file_record p s = s"
    by (simp add: delete_file_record_def)
  have stays: "delete_fault e p \<noteq> None \<Longrightarrow>
      collection (delete_from_vector_db e p s') p = collection s' p" for s'
    by (auto simp: delete_from_vector_db_def collection_delete_def Let_def split: option.splits)
  show ?thesis
    using noop stays
    by (simp add: on_deleted_def delete_from_vector_db_fields delete_file_record_def)
qed

theorem delete_is_idempotent_and_total_witness:
  "files indexed_state ''orphan.txt'' = None
   \<and> collection indexed_state ''orphan.txt'' \<noteq> None
   \<and> delete_fault sample_env ''orphan.txt'' = None
   \<and> delete_file_record ''orphan.txt'' indexed_state = indexed_state
   \<and> fst (dispatch sample_env sample_fs (Deleted False ''orphan.txt'') indexed_state) = Inr ()
   \<and> files (snd (dispatch sample_env sample_fs (Deleted False ''orphan.txt'') indexed_state))
        ''orphan.txt'' = None
   \<and> collection (snd (dispatch sample_env sample_fs (Deleted False ''orphan.txt'') indexed_state))
        ''orphan.txt'' = None
   \<and> files (snd (dispatch sample_env sample_fs (Deleted False ''orphan.txt'') indexed_state))
        ''notes.txt'' = files indexed_state ''notes.txt''"
proof -
  have df: "delete_fault sample_env ''orphan.txt'' = None" by (simp add: sample_env_def)
  have ne: "''notes.txt'' \<noteq> ''orphan.txt''" by simp
  from df ne indexed_state_fields(3,4)
    delete_is_idempotent_and_total [of "''orphan.txt''" indexed_state sample_env sample_fs]
  show ?thesis by simp
qed

text \<open>
  C6, as the specification has it, fails: with the index service failing, a Deleted
  event on \<^verbatim>\<open>orphan.txt\<close>, which has an index entry and no record, returns normally and
  leaves the index entry in place.
\<close>

theorem deleted_event_keeps_entry_when_delete_raises:
  "files indexed_state ''orphan.txt'' = None
   \<and> delete_fault index_down_env ''orphan.txt'' = Some (PyException ''ConnectionError'')
   \<and> fst (dispatch index_down_env sample_fs (Deleted False ''orphan.txt'') indexed_state) = Inr ()
   \<and> files (snd (dispatch index_down_env sample_fs (Deleted False ''orphan.txt'') indexed_state))
        ''orphan.txt'' = None
   \<and> collection (snd (dispatch index_down_env sample_fs (Deleted False ''orphan.txt'') indexed_state))
        ''orphan.txt'' = Some \<lparr>document = ''a'', source = ''orphan.txt'', embedding_of = [1]\<rparr>
   \<and> out (snd (dispatch index_down_env sample_fs (Deleted False ''orphan.txt'') indexed_state))
        = out indexed_state
            @ [FileDeleted ''orphan.txt'', DeleteFailed (PyException ''ConnectionError'')]"
proof -
  have df: "delete_fault index_down_env ''orphan.txt'' = Some (PyException ''ConnectionError'')"
    by (simp add: index_down_env_def sample_env_def)
  show ?thesis
    using df indexed_state_fields(3,4)
    by (simp add: on_deleted_def delete_from_vector_db_def collection_delete_def Let_def)
qed

end
